theory Spec2Isabelle
  imports Complex_Main "HOL-Library.Word" "HOL-Library.Signed_Division"
begin

unbundle bit_operations_syntax

section \<open>Hardware video encoder (videoencoderndkmediaelement.cpp) and recording orchestrator\<close>

text \<open>
  A shallow embedding of \<^verbatim>\<open>VideoEncoderNDKMediaElement\<close>, its private class and the
  \<^verbatim>\<open>Recording\<close> orchestrator. Integers of the source (\<^verbatim>\<open>int\<close>, \<^verbatim>\<open>qint64\<close>) are
  values of \<^typ>\<open>int\<close>. The products of two \<^verbatim>\<open>int\<close>s in the frame writer, the
  narrowing of a value to the \<^verbatim>\<open>int32_t\<close> of a format entry and the conversions to
  unsigned types are brought back into the range of their C++ type (\<open>int32_of\<close>,
  \<open>size_t\<close>, \<open>uint64_t\<close>), as the compiled code does; the other arithmetic is on the
  mathematical values. A function that may not return normally (a trap such as a division
  by zero, a null dereference, or a loop that the hardware never lets finish) returns
  \<open>None\<close>.
\<close>

subsection \<open>Machine integers, fractions and C++ integer division\<close>

text \<open>
  The value of an integer expression in a 32-bit \<^verbatim>\<open>int\<close> (also \<^verbatim>\<open>int32_t\<close>, as
  \<^verbatim>\<open>AMediaFormat_setInt32\<close> takes its value), and in the unsigned 64-bit
  \<^verbatim>\<open>size_t\<close> and \<^verbatim>\<open>uint64_t\<close>: the mathematical value reduced to the type's range.
\<close>

definition int32_of :: "int \<Rightarrow> int" where
  "int32_of x = sint (word_of_int x :: 32 word)"

definition size_t :: "int \<Rightarrow> nat" where
  "size_t x = nat (x mod 2 ^ 64)"

definition uint64_t :: "int \<Rightarrow> int" where
  "uint64_t x = x mod 2 ^ 64"

record AkFrac =
  num :: int
  den :: int

text \<open>
  C++ \<^verbatim>\<open>/\<close> on integers truncates towards zero and traps on a zero divisor.
\<close>

definition c_div :: "int \<Rightarrow> int \<Rightarrow> int option" where
  "c_div a b = (if b = 0 then None else Some (a sdiv b))"

text \<open>
  The key-frame interval of \<^verbatim>\<open>VideoEncoderNDKMediaElementPrivate::init\<close>:
  \<^verbatim>\<open>qMax(self->gop() * fps.num() / (1000 * fps.den()), 1)\<close>.
\<close>

definition init_gop :: "int \<Rightarrow> AkFrac \<Rightarrow> int option" where
  "init_gop gopMillis rate =
     map_option (\<lambda>q. max q 1) (c_div (gopMillis * num rate) (1000 * den rate))"

text \<open>
  The key-frame interval as the specification words it:
  \<^verbatim>\<open>round(gopMillis * fps / 1000)\<close>, clamped to at least 1.
\<close>

definition gop_spec :: "int \<Rightarrow> AkFrac \<Rightarrow> int" where
  "gop_spec gopMillis rate =
     max (round (real_of_int gopMillis * (real_of_int (num rate) / real_of_int (den rate)) / 1000)) 1"

subsection \<open>Raw video frames and the hardware format object\<close>

datatype PixelFormat =
    Format_none
  | Format_yuv420p
  | Format_yuv422p
  | Format_yuv444p
  | Format_other nat

record AkVideoCaps =
  format :: PixelFormat
  width :: int
  height :: int
  fps :: AkFrac

type_synonym byte = "8 word"

text \<open>
  What the encoder reads of an \<^verbatim>\<open>AkVideoPacket\<close>: its capabilities and timing, the
  number of planes, and per plane the line size in bytes, the subsampling shifts and the
  bytes of each row (\<open>constLine packet plane y i\<close> is byte \<open>i\<close> of row \<open>y\<close>).
\<close>

record AkVideoPacket =
  caps :: AkVideoCaps
  pts :: int
  duration :: int
  timeBase :: AkFrac
  packet_id :: int
  packet_index :: int
  planes :: nat
  lineSize :: "nat \<Rightarrow> nat"
  widthDiv :: "nat \<Rightarrow> nat"
  heightDiv :: "nat \<Rightarrow> nat"
  constLine :: "nat \<Rightarrow> int \<Rightarrow> nat \<Rightarrow> byte"

text \<open>
  An \<^verbatim>\<open>AMediaFormat\<close> is a key-value object. \<^verbatim>\<open>AMediaFormat_getInt32\<close> leaves
  its out-parameter as it was when the key is absent or holds another type.
\<close>

datatype format_value = FormatInt32 int | FormatString string | FormatFloat AkFrac

type_synonym AMediaFormat = "string \<rightharpoonup> format_value"

abbreviation AMEDIAFORMAT_KEY_STRIDE :: string where
  "AMEDIAFORMAT_KEY_STRIDE \<equiv> ''stride''"

abbreviation FORMAT_KEY_SLICE_HEIGHT :: string where
  "FORMAT_KEY_SLICE_HEIGHT \<equiv> ''slice-height''"

definition AMediaFormat_getInt32 :: "AMediaFormat \<Rightarrow> string \<Rightarrow> int \<Rightarrow> int" where
  "AMediaFormat_getInt32 mediaFormat key out =
     (case mediaFormat key of Some (FormatInt32 v) \<Rightarrow> v | _ \<Rightarrow> out)"

subsection \<open>FrameWriter: \<^verbatim>\<open>writeFrame\<close>\<close>

text \<open>
  The hardware input buffer is a store of bytes addressed by the offset from the
  buffer's start; \<^verbatim>\<open>writeFrame\<close> never looks at the buffer's size, so the store is
  unbounded. \<open>memcpy\<close> overwrites \<open>n\<close> cells from \<open>dst\<close> on.
\<close>

type_synonym memory = "int \<Rightarrow> byte"

definition memcpy :: "memory \<Rightarrow> int \<Rightarrow> (nat \<Rightarrow> byte) \<Rightarrow> nat \<Rightarrow> memory" where
  "memcpy mem dst src n = (\<lambda>a. if dst \<le> a \<and> a < dst + int n then src (nat (a - dst)) else mem a)"

text \<open>
  The inner loop \<^verbatim>\<open>for (int y = 0; y < packet.caps().height(); ++y)\<close>. The shift
  \<^verbatim>\<open>>>\<close> on a signed integer, by less than the integer's width, is \<^const>\<open>drop_bit\<close>.
  The row offset \<^verbatim>\<open>ys * oLineSize\<close> is a product of two \<^verbatim>\<open>int\<close>s, formed in 32 bits
  before it is added to the pointer.
\<close>

function writeRows ::
  "AkVideoPacket \<Rightarrow> nat \<Rightarrow> int \<Rightarrow> nat \<Rightarrow> int \<Rightarrow> int \<Rightarrow> memory \<Rightarrow> memory" where
  "writeRows packet plane oLineSize lineSz oData y buffer =
     (if y < height (caps packet)
      then let ys = drop_bit (heightDiv packet plane) y in
           writeRows packet plane oLineSize lineSz oData (y + 1)
             (memcpy buffer (oData + int32_of (ys * oLineSize)) (constLine packet plane y) lineSz)
      else buffer)"
  by pat_completeness auto
termination
  by (relation "measure (\<lambda>(packet, plane, oLineSize, lineSz, oData, y, buffer).
                  nat (height (caps packet) - y))") auto

declare writeRows.simps [simp del]

text \<open>
  The outer loop \<^verbatim>\<open>for (int plane = 0; plane < packet.planes(); ++plane)\<close>. The
  advance of the cursor, \<^verbatim>\<open>oLineSize * (sliceHeight >> heightDiv)\<close>, is again a product
  of two \<^verbatim>\<open>int\<close>s.
\<close>

function writePlanes ::
  "AkVideoPacket \<Rightarrow> int \<Rightarrow> int \<Rightarrow> nat \<Rightarrow> int \<Rightarrow> memory \<Rightarrow> memory" where
  "writePlanes packet stride sliceHeight plane oData buffer =
     (if plane < planes packet
      then let iLineSize = lineSize packet plane;
               oLineSize = (if planes packet > 1
                            then drop_bit (widthDiv packet plane) stride
                            else stride);
               lineSz = min iLineSize (size_t oLineSize);
               hDiv = heightDiv packet plane
           in writePlanes packet stride sliceHeight (plane + 1)
                (oData + int32_of (oLineSize * drop_bit hDiv sliceHeight))
                (writeRows packet plane oLineSize lineSz oData 0 buffer)
      else buffer)"
  by pat_completeness auto
termination
  by (relation "measure (\<lambda>(packet, stride, sliceHeight, plane, oData, buffer).
                  planes packet - plane)") auto

declare writePlanes.simps [simp del]

definition writeFrame :: "AMediaFormat \<Rightarrow> AkVideoPacket \<Rightarrow> memory \<Rightarrow> memory" where
  "writeFrame mediaFormat packet buffer =
     (let stride = AMediaFormat_getInt32 mediaFormat AMEDIAFORMAT_KEY_STRIDE 0;
          sliceHeight0 = AMediaFormat_getInt32 mediaFormat FORMAT_KEY_SLICE_HEIGHT 0;
          sliceHeight = (if sliceHeight0 < height (caps packet)
                         then height (caps packet) else sliceHeight0)
      in writePlanes packet stride sliceHeight 0 0 buffer)"

text \<open>
  The FrameWriter rule in the specification's words, for a given destination line size
  \<open>oLine p\<close> of every plane: copy \<open>min (source line size) (oLine p)\<close> bytes of every
  source row \<open>y\<close> in \<open>[0, frameHeight)\<close> to destination row \<open>y >> heightDiv\<close>, then
  advance the cursor by \<open>oLine p * (sliceHeight >> heightDiv)\<close>, the slice height
  being clamped to at least the frame height.
\<close>

definition copy_plane_rule ::
  "AkVideoPacket \<Rightarrow> nat \<Rightarrow> int \<Rightarrow> int \<Rightarrow> memory \<Rightarrow> memory" where
  "copy_plane_rule packet p oLine cursor buffer =
     foldl (\<lambda>m y. memcpy m (cursor + (int y div 2 ^ heightDiv packet p) * oLine)
                     (constLine packet p (int y))
                     (nat (min (int (lineSize packet p)) oLine)))
       buffer [0..<nat (height (caps packet))]"

definition FrameWriter_rule ::
  "(nat \<Rightarrow> int) \<Rightarrow> int \<Rightarrow> AkVideoPacket \<Rightarrow> memory \<Rightarrow> memory" where
  "FrameWriter_rule oLine sliceHeight packet buffer =
     snd (foldl (\<lambda>(cursor, m) p.
                   (cursor + oLine p * (max sliceHeight (height (caps packet))
                                          div 2 ^ heightDiv packet p),
                    copy_plane_rule packet p (oLine p) cursor m))
            (0, buffer) [0..<planes packet])"

text \<open>
  The rule as claim C1 states it: the destination line size of every plane is the stride
  shifted right by the plane's width subsampling.
\<close>

definition writeFrame_spec :: "int \<Rightarrow> int \<Rightarrow> AkVideoPacket \<Rightarrow> memory \<Rightarrow> memory" where
  "writeFrame_spec stride sliceHeight packet buffer =
     FrameWriter_rule (\<lambda>p. stride div 2 ^ widthDiv packet p) sliceHeight packet buffer"

text \<open>
  A shift of an \<^verbatim>\<open>int\<close> is defined when it is by less than 32 bits: the subsampling
  shifts of every plane of the frame are.
\<close>

definition shifts_in_range :: "AkVideoPacket \<Rightarrow> bool" where
  "shifts_in_range packet =
     list_all (\<lambda>p. widthDiv packet p < 32 \<and> heightDiv packet p < 32) [0..<planes packet]"

text \<open>A small frame to run the writer on: a planar 4:2:0 frame of 2 x 2 pixels.\<close>

definition planar_frame :: AkVideoPacket where
  "planar_frame =
     \<lparr>caps = \<lparr>format = Format_yuv420p, width = 2, height = 2, fps = \<lparr>num = 30, den = 1\<rparr>\<rparr>,
      pts = 0, duration = 1, timeBase = \<lparr>num = 1, den = 30\<rparr>, packet_id = 0, packet_index = 0,
      planes = 3,
      lineSize = (\<lambda>p. if p = 0 then 2 else 1),
      widthDiv = (\<lambda>p. if p = 0 then 0 else 1),
      heightDiv = (\<lambda>p. if p = 0 then 0 else 1),
      constLine = (\<lambda>p y i. if p = 0 then of_nat (16 + 2 * nat y + i) else of_nat (128 + p))\<rparr>"

definition zero_buffer :: memory where
  "zero_buffer = (\<lambda>a. 0)"

definition format_of_stride :: "int \<Rightarrow> int \<Rightarrow> AMediaFormat" where
  "format_of_stride stride sliceHeight =
     [AMEDIAFORMAT_KEY_STRIDE \<mapsto> FormatInt32 stride,
      FORMAT_KEY_SLICE_HEIGHT \<mapsto> FormatInt32 sliceHeight]"

subsection \<open>Codec catalog and the hardware-availability cache\<close>

datatype VideoCodecID =
    VideoCodecID_unknown
  | VideoCodecID_amvp8
  | VideoCodecID_amvp9
  | VideoCodecID_amav1
  | VideoCodecID_amh264
  | VideoCodecID_amhevc

record NDKMediaCodecs =
  codecID :: VideoCodecID
  mimeType :: string
  name :: string
  description :: string

text \<open>
  \<^verbatim>\<open>NDKMediaCodecs::table()\<close> without its closing sentinel, and the sentinel that
  \<^verbatim>\<open>byName\<close> returns when the scan reaches it.
\<close>

definition ndkmediaVideoEncCodecsTable :: "NDKMediaCodecs list" where
  "ndkmediaVideoEncCodecsTable =
     [\<lparr>codecID = VideoCodecID_amvp8, mimeType = ''video/x-vnd.on2.vp8'', name = ''vp8'', description = ''VP8''\<rparr>,
      \<lparr>codecID = VideoCodecID_amvp9, mimeType = ''video/x-vnd.on2.vp9'', name = ''vp9'', description = ''VP9''\<rparr>,
      \<lparr>codecID = VideoCodecID_amav1, mimeType = ''video/av01'', name = ''av1'', description = ''AV1''\<rparr>,
      \<lparr>codecID = VideoCodecID_amh264, mimeType = ''video/avc'', name = ''h264'', description = ''H264''\<rparr>,
      \<lparr>codecID = VideoCodecID_amhevc, mimeType = ''video/hevc'', name = ''hevc'', description = ''HEVC''\<rparr>]"

definition table_sentinel :: NDKMediaCodecs where
  "table_sentinel = \<lparr>codecID = VideoCodecID_unknown, mimeType = [], name = [], description = []\<rparr>"

fun byName_from :: "NDKMediaCodecs list \<Rightarrow> string \<Rightarrow> NDKMediaCodecs" where
  "byName_from [] nm = table_sentinel"
| "byName_from (c # cs) nm = (if name c = nm then c else byName_from cs nm)"

definition byName :: "string \<Rightarrow> NDKMediaCodecs" where
  "byName nm = byName_from ndkmediaVideoEncCodecsTable nm"

text \<open>
  The static cache of \<^verbatim>\<open>isAvailable\<close>: an array of 32 entries, each a
  \<^verbatim>\<open>char mimeType[1024]\<close> and a flag, and the number of entries in use. The model keeps
  the entries in use as a list, together with the log of the MIME types the hardware was
  probed for (\<^verbatim>\<open>AMediaCodec_createEncoderByType\<close> calls of \<^verbatim>\<open>isAvailable\<close>).
  Strings are byte strings (the UTF-8 bytes of the \<^verbatim>\<open>QString\<close>).
\<close>

record availability_cache =
  ndkmediaVideoEncAvailableCodecs :: "(string \<times> bool) list"
  probes :: "string list"

text \<open>\<^verbatim>\<open>c_str()\<close> ends at the first NUL; \<^verbatim>\<open>qstrncpy(dst, src, len)\<close> copies at most
  \<open>len - 1\<close> bytes of it.\<close>

definition c_str :: "string \<Rightarrow> string" where
  "c_str str = takeWhile (\<lambda>c. c \<noteq> CHR 0x00) str"

definition qstrncpy :: "string \<Rightarrow> nat \<Rightarrow> string" where
  "qstrncpy src len = take (len - 1) (c_str src)"

text \<open>The scan \<^verbatim>\<open>for (size_t i = 0; i < size; ++i) if (entry[i].mimeType == mimeType) return ...\<close>.\<close>

fun cache_scan :: "(string \<times> bool) list \<Rightarrow> string \<Rightarrow> bool option" where
  "cache_scan [] mime = None"
| "cache_scan (e # es) mime = (if fst e = mime then Some (snd e) else cache_scan es mime)"

text \<open>
  \<^verbatim>\<open>isAvailable\<close>. The argument \<open>probe\<close> is the answer the hardware gives at the time
  of this call (whether \<^verbatim>\<open>AMediaCodec_createEncoderByType\<close> returns a codec). Writing
  a 33rd entry runs past the array: the call does not return normally.
\<close>

definition isAvailable ::
  "(string \<Rightarrow> bool) \<Rightarrow> string \<Rightarrow> availability_cache \<Rightarrow> (bool \<times> availability_cache) option" where
  "isAvailable probe mime cache =
     (case cache_scan (ndkmediaVideoEncAvailableCodecs cache) mime of
        Some r \<Rightarrow> Some (r, cache)
      | None \<Rightarrow>
          let isAv = probe (c_str mime);
              i = length (ndkmediaVideoEncAvailableCodecs cache)
          in if i < 32
             then Some (isAv,
                    cache\<lparr>ndkmediaVideoEncAvailableCodecs :=
                             ndkmediaVideoEncAvailableCodecs cache @ [(qstrncpy mime 1024, isAv)],
                          probes := probes cache @ [c_str mime]\<rparr>)
             else None)"

text \<open>Any later calls, each with its own hardware answer and MIME type.\<close>

fun isAvailable_calls ::
  "((string \<Rightarrow> bool) \<times> string) list \<Rightarrow> availability_cache \<Rightarrow> availability_cache option" where
  "isAvailable_calls [] cache = Some cache"
| "isAvailable_calls ((probe, mime) # cs) cache =
     (case isAvailable probe mime cache of
        None \<Rightarrow> None
      | Some (r, cache') \<Rightarrow> isAvailable_calls cs cache')"

text \<open>
  \<^verbatim>\<open>listCodecs\<close>, the one caller of \<^verbatim>\<open>isAvailable\<close>: run by the constructor of every
  encoder element, it asks for each entry of the codec catalog in turn and lists the
  codecs the device has. \<open>formats\<close> is \<^verbatim>\<open>PixelFormatsTable::formats()\<close>.
\<close>

record CodecInfo =
  ci_name :: string
  ci_description :: string
  ci_codecID :: VideoCodecID
  ci_mimeType :: string
  ci_formats :: "PixelFormat list"

fun listCodecs_from ::
  "(string \<Rightarrow> bool) \<Rightarrow> PixelFormat list \<Rightarrow> NDKMediaCodecs list \<Rightarrow> CodecInfo list
     \<Rightarrow> availability_cache \<Rightarrow> (CodecInfo list \<times> availability_cache) option" where
  "listCodecs_from probe formats [] m_codecs cache = Some (m_codecs, cache)"
| "listCodecs_from probe formats (c # cs) m_codecs cache =
     (case isAvailable probe (mimeType c) cache of
        None \<Rightarrow> None
      | Some (av, cache') \<Rightarrow>
          if \<not> av then listCodecs_from probe formats cs m_codecs cache'
          else listCodecs_from probe formats cs
                 (m_codecs @ [\<lparr>ci_name = name c, ci_description = description c,
                               ci_codecID = codecID c, ci_mimeType = mimeType c,
                               ci_formats = formats\<rparr>])
                 cache')"

definition listCodecs ::
  "(string \<Rightarrow> bool) \<Rightarrow> PixelFormat list \<Rightarrow> CodecInfo list \<Rightarrow> availability_cache
     \<Rightarrow> (CodecInfo list \<times> availability_cache) option" where
  "listCodecs probe formats m_codecs cache =
     listCodecs_from probe formats ndkmediaVideoEncCodecsTable m_codecs cache"

text \<open>
  The MIME types \<^verbatim>\<open>isAvailable\<close> is asked for are therefore those of the catalog.
\<close>

definition catalog_mime :: "string \<Rightarrow> bool" where
  "catalog_mime mime = (mime \<in> set (map mimeType ndkmediaVideoEncCodecsTable))"

fun catalog_calls :: "((string \<Rightarrow> bool) \<times> string) list \<Rightarrow> bool" where
  "catalog_calls [] = True"
| "catalog_calls (c # cs) = (catalog_mime (snd c) \<and> catalog_calls cs)"

text \<open>
  What such calls make of the cache: at most one entry for each MIME type of the catalog.
\<close>

definition catalog_cache :: "availability_cache \<Rightarrow> bool" where
  "catalog_cache cache =
     (distinct (map fst (ndkmediaVideoEncAvailableCodecs cache))
      \<and> list_all catalog_mime (map fst (ndkmediaVideoEncAvailableCodecs cache)))"

text \<open>A device that has the encoder asked for, and one that has not.\<close>

definition probe_yes :: "string \<Rightarrow> bool" where
  "probe_yes mime = True"

definition probe_no :: "string \<Rightarrow> bool" where
  "probe_no mime = False"

definition empty_cache :: availability_cache where
  "empty_cache = \<lparr>ndkmediaVideoEncAvailableCodecs = [], probes = []\<rparr>"

text \<open>A MIME type fits a cache entry when \<^verbatim>\<open>qstrncpy\<close> stores all of it.\<close>

definition fits_entry :: "string \<Rightarrow> bool" where
  "fits_entry mime = (length mime < 1024 \<and> CHR 0x00 \<notin> set mime)"

subsection \<open>The hardware codec provider\<close>

text \<open>
  The NDK codec, the frame converter and the frame-rate filter are collaborators outside
  this code. Their answers are parameters (an \<open>environment\<close>): the model fixes no
  behaviour of the hardware beyond the life cycle of a codec object. The answers to the
  bounded waits are scripts: \<open>input_script env k\<close> is what the \<open>k\<close>-th
  \<^verbatim>\<open>AMediaCodec_dequeueInputBuffer\<close> returns (a buffer index, or a negative value when
  no buffer came within \<^verbatim>\<open>PROCESSING_TIMEOUT\<close>), \<open>output_script env k\<close> what the
  \<open>k\<close>-th \<^verbatim>\<open>AMediaCodec_dequeueOutputBuffer\<close> returns. The two roundings done in
  double precision (\<^verbatim>\<open>qRound64(1e6 * pts * timeBase.value())\<close> and
  \<^verbatim>\<open>qRound64(presentationTimeUs * fps.value() / 1e6)\<close>) are parameters as well.
\<close>

datatype ElementState = ElementStateNull | ElementStatePaused | ElementStatePlaying

datatype media_status = AMEDIA_OK | AMEDIA_ERROR int

record AMediaCodecBufferInfo =
  info_offset :: int
  info_size :: int
  presentationTimeUs :: int
  info_flags :: "32 word"

abbreviation AMEDIACODEC_BUFFER_FLAG_KEY_FRAME :: "32 word" where
  "AMEDIACODEC_BUFFER_FLAG_KEY_FRAME \<equiv> 1"

abbreviation AMEDIACODEC_BUFFER_FLAG_CODEC_CONFIG :: "32 word" where
  "AMEDIACODEC_BUFFER_FLAG_CODEC_CONFIG \<equiv> 2"

abbreviation AMEDIACODEC_BUFFER_FLAG_END_OF_STREAM :: "32 word" where
  "AMEDIACODEC_BUFFER_FLAG_END_OF_STREAM \<equiv> 4"

record environment =
  encoder_exists :: "string \<Rightarrow> bool"
  configure_status :: media_status
  start_status :: media_status
  input_script :: "nat \<Rightarrow> int"
  output_script :: "nat \<Rightarrow> int \<times> AMediaCodecBufferInfo"
  inputBufferSize :: nat
  outputBuffer :: "nat \<Rightarrow> nat \<Rightarrow> byte"
  android_api :: nat
  plane0_bitsSize :: "PixelFormat \<Rightarrow> nat"
  fpsControl_discard :: "AkVideoPacket \<Rightarrow> bool"
  fpsControl_oStream :: "AkVideoPacket \<Rightarrow> AkVideoPacket list"
  videoConverter_convert :: "AkVideoPacket \<Rightarrow> AkVideoPacket option"
  qRound64_us :: "int \<Rightarrow> AkFrac \<Rightarrow> int"
  qRound64_pts :: "int \<Rightarrow> AkFrac \<Rightarrow> int"
  AkElement_setState :: "ElementState \<Rightarrow> ElementState \<Rightarrow> bool \<times> ElementState"

text \<open>Every call that leaves the element, in order.\<close>

datatype ndk_call =
    Call_createEncoderByType string
  | Call_configure nat
  | Call_start nat
  | Call_stop nat
  | Call_delete nat
  | Call_dequeueInputBuffer nat
  | Call_getInputBuffer nat nat
  | Call_queueInputBuffer nat nat nat int "32 word"
  | Call_dequeueOutputBuffer nat
  | Call_getOutputBuffer nat nat
  | Call_releaseOutputBuffer nat nat bool
  | Call_fpsControl_setProperty_fps AkFrac
  | Call_fpsControl_setProperty_fillGaps bool
  | Call_fpsControl_restart
  | Call_fpsControl_discard
  | Call_fpsControl_iStream

datatype codec_status = Codec_Created | Codec_Configured | Codec_Started | Codec_Stopped

text \<open>
  The state of the hardware side: the codec objects alive with their life-cycle status,
  the counters for fresh objects, the log of calls, how many bounded waits were answered,
  and the contents of the input buffers.
\<close>

record ndk_state =
  codec_objects :: "(nat \<times> codec_status) list"
  next_codec :: nat
  next_format :: nat
  ndk_calls :: "ndk_call list"
  inputs_dequeued :: nat
  outputs_dequeued :: nat
  input_buffers :: "nat \<Rightarrow> memory"

definition log_call :: "ndk_call \<Rightarrow> ndk_state \<Rightarrow> ndk_state" where
  "log_call c hw = hw\<lparr>ndk_calls := ndk_calls hw @ [c]\<rparr>"

definition set_codec_status :: "nat \<Rightarrow> codec_status \<Rightarrow> ndk_state \<Rightarrow> ndk_state" where
  "set_codec_status c st hw =
     hw\<lparr>codec_objects := map (\<lambda>(k, v). if k = c then (k, st) else (k, v)) (codec_objects hw)\<rparr>"

text \<open>A codec is running between a successful start and the next stop or delete.\<close>

definition running_codecs :: "ndk_state \<Rightarrow> nat list" where
  "running_codecs hw = map fst (filter (\<lambda>(k, v). v = Codec_Started) (codec_objects hw))"

definition AMediaCodec_createEncoderByType ::
  "environment \<Rightarrow> string \<Rightarrow> ndk_state \<Rightarrow> nat option \<times> ndk_state" where
  "AMediaCodec_createEncoderByType env mime hw =
     (let hw1 = log_call (Call_createEncoderByType mime) hw in
      if encoder_exists env mime
      then (Some (next_codec hw1),
            hw1\<lparr>codec_objects := codec_objects hw1 @ [(next_codec hw1, Codec_Created)],
                next_codec := next_codec hw1 + 1\<rparr>)
      else (None, hw1))"

definition AMediaCodec_configure ::
  "environment \<Rightarrow> nat \<Rightarrow> ndk_state \<Rightarrow> media_status \<times> ndk_state" where
  "AMediaCodec_configure env c hw =
     (let hw1 = log_call (Call_configure c) hw in
      if configure_status env = AMEDIA_OK
      then (AMEDIA_OK, set_codec_status c Codec_Configured hw1)
      else (configure_status env, hw1))"

definition AMediaCodec_start ::
  "environment \<Rightarrow> nat \<Rightarrow> ndk_state \<Rightarrow> media_status \<times> ndk_state" where
  "AMediaCodec_start env c hw =
     (let hw1 = log_call (Call_start c) hw in
      if start_status env = AMEDIA_OK
      then (AMEDIA_OK, set_codec_status c Codec_Started hw1)
      else (start_status env, hw1))"

definition AMediaCodec_stop :: "nat \<Rightarrow> ndk_state \<Rightarrow> ndk_state" where
  "AMediaCodec_stop c hw = set_codec_status c Codec_Stopped (log_call (Call_stop c) hw)"

definition AMediaCodec_delete :: "nat \<Rightarrow> ndk_state \<Rightarrow> ndk_state" where
  "AMediaCodec_delete c hw =
     (let hw1 = log_call (Call_delete c) hw in
      hw1\<lparr>codec_objects := filter (\<lambda>(k, v). k \<noteq> c) (codec_objects hw1)\<rparr>)"

definition AMediaCodec_dequeueInputBuffer ::
  "environment \<Rightarrow> nat \<Rightarrow> ndk_state \<Rightarrow> int \<times> ndk_state" where
  "AMediaCodec_dequeueInputBuffer env c hw =
     (input_script env (inputs_dequeued hw),
      (log_call (Call_dequeueInputBuffer c) hw)\<lparr>inputs_dequeued := inputs_dequeued hw + 1\<rparr>)"

definition AMediaCodec_queueInputBuffer ::
  "nat \<Rightarrow> nat \<Rightarrow> nat \<Rightarrow> int \<Rightarrow> 32 word \<Rightarrow> ndk_state \<Rightarrow> ndk_state" where
  "AMediaCodec_queueInputBuffer c idx sz timeUs flags hw =
     log_call (Call_queueInputBuffer c idx sz timeUs flags) hw"

definition AMediaCodec_dequeueOutputBuffer ::
  "environment \<Rightarrow> nat \<Rightarrow> ndk_state \<Rightarrow> int \<times> AMediaCodecBufferInfo \<times> ndk_state" where
  "AMediaCodec_dequeueOutputBuffer env c hw =
     (fst (output_script env (outputs_dequeued hw)),
      snd (output_script env (outputs_dequeued hw)),
      (log_call (Call_dequeueOutputBuffer c) hw)\<lparr>outputs_dequeued := outputs_dequeued hw + 1\<rparr>)"

subsection \<open>The encoder element\<close>

record AkCompressedVideoCaps =
  caps_codecID :: VideoCodecID
  rawCaps :: AkVideoCaps
  caps_bitrate :: int

datatype VideoPacketTypeFlag = VideoPacketTypeFlag_KeyFrame | VideoPacketTypeFlag_None

record AkCompressedVideoPacket =
  cp_caps :: AkCompressedVideoCaps
  cp_data :: "byte list"
  cp_flags :: VideoPacketTypeFlag
  cp_pts :: int
  cp_dts :: int
  cp_duration :: int
  cp_timeBase :: AkFrac
  cp_id :: int
  cp_index :: int
  cp_extraData :: AMediaCodecBufferInfo

datatype signal =
    oStream AkCompressedVideoPacket
  | headersChanged nat
  | encodedTimePtsChanged int

text \<open>
  The element with its private data. \<open>elementState\<close> is the state kept by the base class
  \<^verbatim>\<open>AkElement\<close>; \<open>inputCaps\<close> is \<open>None\<close> when the input capabilities are not valid;
  \<open>m_codec\<close> and \<open>m_mediaFormat\<close> are \<open>None\<close> for a null pointer, the format being
  kept with its address (the headers are the bytes of that address); \<open>m_fpsControl\<close>
  tells whether the frame-rate filter could be created; \<open>emitted\<close> lists the signals sent.
\<close>

record encoder =
  elementState :: ElementState
  inputCaps :: "AkVideoCaps option"
  codec :: string
  bitrate :: int
  gop :: int
  fillGaps :: bool
  videoConverter_outputCaps :: AkVideoCaps
  m_outputCaps :: AkCompressedVideoCaps
  m_headers :: "nat option"
  m_codec :: "nat option"
  m_mediaFormat :: "(nat \<times> AMediaFormat) option"
  m_id :: int
  m_index :: int
  m_initialized :: bool
  m_paused :: bool
  m_encodedTimePts :: int
  m_fpsControl :: bool
  emitted :: "signal list"

text \<open>\<^verbatim>\<open>AkFrac::invert\<close>, read as the exchange of numerator and denominator.\<close>

definition AkFrac_invert :: "AkFrac \<Rightarrow> AkFrac" where
  "AkFrac_invert f = \<lparr>num = den f, den = num f\<rparr>"

text \<open>\<^verbatim>\<open>sendFrame\<close>: one output buffer becomes one packet on \<^verbatim>\<open>oStream\<close>.\<close>

definition sendFrame ::
  "environment \<Rightarrow> encoder \<Rightarrow> (nat \<Rightarrow> byte) \<Rightarrow> AMediaCodecBufferInfo \<Rightarrow> encoder" where
  "sendFrame env s buf info =
     (let rate = fps (rawCaps (m_outputCaps s));
          t = qRound64_pts env (presentationTimeUs info) rate;
          packet = \<lparr>cp_caps = m_outputCaps s,
                    cp_data = map buf [0..<size_t (info_size info)],
                    cp_flags = (if info_flags info AND AMEDIACODEC_BUFFER_FLAG_KEY_FRAME \<noteq> 0
                                then VideoPacketTypeFlag_KeyFrame
                                else VideoPacketTypeFlag_None),
                    cp_pts = t,
                    cp_dts = t,
                    cp_duration = 1,
                    cp_timeBase = AkFrac_invert rate,
                    cp_id = m_id s,
                    cp_index = m_index s,
                    cp_extraData = info\<rparr>
      in s\<lparr>emitted := emitted s @ [oStream packet]\<rparr>)"

text \<open>
  The \<^verbatim>\<open>forever\<close> loop of \<^verbatim>\<open>encodeFrame\<close>: it ends when a bounded wait for an
  output buffer gives none; a buffer flagged as codec configuration is skipped.
\<close>

partial_function (option) encodeFrame_drain ::
  "environment \<Rightarrow> nat \<Rightarrow> encoder \<Rightarrow> ndk_state \<Rightarrow> (encoder \<times> ndk_state) option" where
  "encodeFrame_drain env c s hw =
     (let (bufferIndex, info, hw1) = AMediaCodec_dequeueOutputBuffer env c hw in
      if bufferIndex < 0 then Some (s, hw1)
      else if info_flags info AND AMEDIACODEC_BUFFER_FLAG_CODEC_CONFIG \<noteq> 0
      then encodeFrame_drain env c s hw1
      else let idx = nat bufferIndex;
               hw2 = log_call (Call_getOutputBuffer c idx) hw1;
               s1 = sendFrame env s (outputBuffer env idx) info;
               hw3 = log_call (Call_releaseOutputBuffer c idx (0 < info_size info)) hw2
           in encodeFrame_drain env c s1 hw3)"

text \<open>
  \<^verbatim>\<open>encodeFrame\<close>. The presentation time of the frame is rounded to a \<^verbatim>\<open>qint64\<close> and
  stored in a \<^verbatim>\<open>uint64_t\<close> before it is queued.
\<close>

definition encodeFrame ::
  "environment \<Rightarrow> AkVideoPacket \<Rightarrow> encoder \<Rightarrow> ndk_state \<Rightarrow> (encoder \<times> ndk_state) option" where
  "encodeFrame env src s hw =
     (let s1 = s\<lparr>m_id := packet_id src, m_index := packet_index src\<rparr> in
      case m_codec s1 of
        None \<Rightarrow> None
      | Some c \<Rightarrow>
          (let (bufferIndex, hw1) = AMediaCodec_dequeueInputBuffer env c hw;
               written =
                 (if 0 \<le> bufferIndex
                  then (case m_mediaFormat s1 of
                          None \<Rightarrow> None
                        | Some (addr, mediaFormat) \<Rightarrow>
                            let idx = nat bufferIndex;
                                hw2 = log_call (Call_getInputBuffer c idx) hw1;
                                bufferSize = inputBufferSize env;
                                hw3 = hw2\<lparr>input_buffers := (input_buffers hw2)
                                        (idx := writeFrame mediaFormat src (input_buffers hw2 idx))\<rparr>;
                                timeUs = uint64_t (qRound64_us env (pts src) (timeBase src))
                            in Some (AMediaCodec_queueInputBuffer c idx bufferSize timeUs 0 hw3))
                  else Some hw1)
           in case written of
                None \<Rightarrow> None
              | Some hw4 \<Rightarrow>
                  (case encodeFrame_drain env c s1 hw4 of
                     None \<Rightarrow> None
                   | Some (s2, hw5) \<Rightarrow>
                       Some (s2\<lparr>m_encodedTimePts := pts src + duration src,
                                emitted := emitted s2 @ [encodedTimePtsChanged (pts src + duration src)]\<rparr>,
                             hw5))))"

text \<open>The frames the frame-rate filter sends on, each through \<^verbatim>\<open>encodeFrame\<close>.\<close>

fun encodeFrames ::
  "environment \<Rightarrow> AkVideoPacket list \<Rightarrow> encoder \<Rightarrow> ndk_state \<Rightarrow> (encoder \<times> ndk_state) option" where
  "encodeFrames env [] s hw = Some (s, hw)"
| "encodeFrames env (f # fs) s hw =
     (case encodeFrame env f s hw of
        None \<Rightarrow> None
      | Some (s1, hw1) \<Rightarrow> encodeFrames env fs s1 hw1)"

definition iVideoStream ::
  "environment \<Rightarrow> AkVideoPacket \<Rightarrow> encoder \<Rightarrow> ndk_state \<Rightarrow> (encoder \<times> ndk_state) option" where
  "iVideoStream env packet s hw =
     (if m_paused s \<or> \<not> m_initialized s \<or> \<not> m_fpsControl s then Some (s, hw)
      else let hw1 = log_call Call_fpsControl_discard hw in
           if fpsControl_discard env packet then Some (s, hw1)
           else (case videoConverter_convert env packet of
                   None \<Rightarrow> Some (s, hw1)
                 | Some src \<Rightarrow>
                     encodeFrames env (fpsControl_oStream env src) s
                       (log_call Call_fpsControl_iStream hw1)))"

text \<open>The \<^verbatim>\<open>while (!eos)\<close> loop of \<^verbatim>\<open>uninit\<close>.\<close>

partial_function (option) uninit_drain ::
  "environment \<Rightarrow> nat \<Rightarrow> bool \<Rightarrow> encoder \<Rightarrow> ndk_state \<Rightarrow> (encoder \<times> ndk_state) option" where
  "uninit_drain env c eos s hw =
     (if eos then Some (s, hw)
      else let (bufferIndex, info, hw1) = AMediaCodec_dequeueOutputBuffer env c hw in
           if bufferIndex < 0 then Some (s, hw1)
           else if info_flags info AND AMEDIACODEC_BUFFER_FLAG_CODEC_CONFIG \<noteq> 0
           then uninit_drain env c eos s hw1
           else let eos1 = (info_flags info AND AMEDIACODEC_BUFFER_FLAG_END_OF_STREAM \<noteq> 0 \<or> eos);
                    idx = nat bufferIndex;
                    hw2 = log_call (Call_getOutputBuffer c idx) hw1;
                    s1 = sendFrame env s (outputBuffer env idx) info;
                    hw3 = log_call (Call_releaseOutputBuffer c idx (0 < info_size info)) hw2
                in uninit_drain env c eos1 s1 hw3)"

definition uninit ::
  "environment \<Rightarrow> encoder \<Rightarrow> ndk_state \<Rightarrow> (encoder \<times> ndk_state) option" where
  "uninit env s hw =
     (if \<not> m_initialized s then Some (s, hw)
      else let s1 = s\<lparr>m_initialized := False\<rparr> in
           case (case m_codec s1 of
                   None \<Rightarrow> Some (s1, hw)
                 | Some c \<Rightarrow>
                     let (bufferIndex, hw1) = AMediaCodec_dequeueInputBuffer env c hw;
                         hw2 = (if 0 \<le> bufferIndex
                                then AMediaCodec_queueInputBuffer c (nat bufferIndex) 0 0
                                       AMEDIACODEC_BUFFER_FLAG_END_OF_STREAM hw1
                                else hw1)
                     in (case uninit_drain env c False s1 hw2 of
                           None \<Rightarrow> None
                         | Some (s2, hw3) \<Rightarrow> Some (s2, AMediaCodec_stop c hw3)))
           of None \<Rightarrow> None
            | Some (s3, hw4) \<Rightarrow>
                let s4 = s3\<lparr>m_mediaFormat := None\<rparr>;
                    hw5 = (case m_codec s4 of
                             Some c \<Rightarrow> AMediaCodec_delete c hw4
                           | None \<Rightarrow> hw4);
                    s5 = s4\<lparr>m_codec := None\<rparr>;
                    hw6 = (if m_fpsControl s5 then log_call Call_fpsControl_restart hw5 else hw5)
                in Some (s5\<lparr>m_paused := False\<rparr>, hw6))"

definition updateHeaders :: "encoder \<Rightarrow> encoder" where
  "updateHeaders s =
     (let headers = (case m_mediaFormat s of Some (addr, mediaFormat) \<Rightarrow> addr | None \<Rightarrow> 0) in
      if m_headers s = Some headers then s
      else s\<lparr>m_headers := Some headers, emitted := emitted s @ [headersChanged headers]\<rparr>)"

text \<open>\<^verbatim>\<open>PixelFormatsTable\<close> without its sentinel, and \<^verbatim>\<open>byFormat(format)->ndkFormat\<close>.\<close>

definition ndkmediaEncoderPixelFormatsTable :: "(int \<times> PixelFormat) list" where
  "ndkmediaEncoderPixelFormatsTable =
     [(0x7f420888, Format_yuv420p), (0x7f422888, Format_yuv422p), (0x7f444888, Format_yuv444p)]"

fun byFormat_from :: "(int \<times> PixelFormat) list \<Rightarrow> PixelFormat \<Rightarrow> int" where
  "byFormat_from [] f = 0"
| "byFormat_from (item # items) f = (if snd item = f then fst item else byFormat_from items f)"

definition init_stride :: "environment \<Rightarrow> AkVideoCaps \<Rightarrow> nat" where
  "init_stride env oc =
     (let bits = plane0_bitsSize env (format oc) in
      if width oc AND 1 \<noteq> 0
      then (bits * size_t (width oc + 1)) mod 2 ^ 64 div 8
      else (bits * size_t (width oc)) mod 2 ^ 64 div 8)"

definition init_mediaFormat :: "environment \<Rightarrow> encoder \<Rightarrow> string \<Rightarrow> int \<Rightarrow> AMediaFormat" where
  "init_mediaFormat env s mime g =
     (let oc = videoConverter_outputCaps s;
          f = [''mime'' \<mapsto> FormatString mime,
               ''bitrate'' \<mapsto> FormatInt32 (int32_of (bitrate s)),
               ''language'' \<mapsto> FormatString ''und'',
               ''color-format'' \<mapsto> FormatInt32 (byFormat_from ndkmediaEncoderPixelFormatsTable (format oc)),
               ''width'' \<mapsto> FormatInt32 (int32_of (width oc)),
               ''height'' \<mapsto> FormatInt32 (int32_of (height oc)),
               ''frame-rate'' \<mapsto> FormatFloat (fps oc),
               AMEDIAFORMAT_KEY_STRIDE \<mapsto> FormatInt32 (int32_of (int (init_stride env oc))),
               FORMAT_KEY_SLICE_HEIGHT \<mapsto> FormatInt32 (int32_of (height oc)),
               ''i-frame-interval'' \<mapsto> FormatInt32 (int32_of g)]
      in if 28 \<le> android_api env then f(''bitrate-mode'' \<mapsto> FormatInt32 2) else f)"

definition init ::
  "environment \<Rightarrow> encoder \<Rightarrow> ndk_state \<Rightarrow> (bool \<times> encoder \<times> ndk_state) option" where
  "init env s0 hw0 =
     (case uninit env s0 hw0 of
        None \<Rightarrow> None
      | Some (s, hw) \<Rightarrow>
          (case inputCaps s of
             None \<Rightarrow> Some (False, s, hw)
           | Some inCaps \<Rightarrow>
               let mime = mimeType (byName (codec s)) in
               if mime = [] then Some (False, s, hw)
               else
                 let (c, hw1) = AMediaCodec_createEncoderByType env mime hw;
                     s1 = s\<lparr>m_codec := c\<rparr>
                 in (case c of
                       None \<Rightarrow> Some (False, s1, hw1)
                     | Some cdc \<Rightarrow>
                         (case init_gop (gop s1) (fps (videoConverter_outputCaps s1)) of
                            None \<Rightarrow> None
                          | Some g \<Rightarrow>
                              let addr = next_format hw1;
                                  hw2 = hw1\<lparr>next_format := next_format hw1 + 1\<rparr>;
                                  s2 = s1\<lparr>m_mediaFormat := Some (addr, init_mediaFormat env s1 mime g)\<rparr>;
                                  (result, hw3) = AMediaCodec_configure env cdc hw2
                              in if result \<noteq> AMEDIA_OK then Some (False, s2, hw3)
                                 else
                                   let (result2, hw4) = AMediaCodec_start env cdc hw3 in
                                   if result2 \<noteq> AMEDIA_OK then Some (False, s2, hw4)
                                   else
                                     let s3 = updateHeaders s2;
                                         hw5 = (if m_fpsControl s3
                                                then log_call Call_fpsControl_restart
                                                       (log_call (Call_fpsControl_setProperty_fillGaps (fillGaps s3))
                                                          (log_call (Call_fpsControl_setProperty_fps
                                                                       (fps (videoConverter_outputCaps s3))) hw4))
                                                else hw4)
                                     in Some (True, s3\<lparr>m_encodedTimePts := 0, m_initialized := True\<rparr>, hw5)))))"

text \<open>
  \<^verbatim>\<open>setState\<close>. The call of the base class \<^verbatim>\<open>AkElement::setState\<close> is the
  environment's; from the null state, \<^verbatim>\<open>case ElementStatePaused\<close> sets the pause flag
  and falls through into \<^verbatim>\<open>case ElementStatePlaying\<close>, here \<open>start_or_fail\<close>.
\<close>

definition base_setState ::
  "environment \<Rightarrow> ElementState \<Rightarrow> encoder \<Rightarrow> ndk_state \<Rightarrow> bool \<times> encoder \<times> ndk_state" where
  "base_setState env st s hw =
     (let (r, st1) = AkElement_setState env (elementState s) st in (r, s\<lparr>elementState := st1\<rparr>, hw))"

definition start_or_fail ::
  "environment \<Rightarrow> ElementState \<Rightarrow> encoder \<Rightarrow> ndk_state \<Rightarrow> (bool \<times> encoder \<times> ndk_state) option" where
  "start_or_fail env st s hw =
     (case init env s hw of
        None \<Rightarrow> None
      | Some (ok, s1, hw1) \<Rightarrow>
          if \<not> ok then Some (False, s1\<lparr>m_paused := False\<rparr>, hw1)
          else Some (base_setState env st s1 hw1))"

definition setState ::
  "environment \<Rightarrow> ElementState \<Rightarrow> encoder \<Rightarrow> ndk_state \<Rightarrow> (bool \<times> encoder \<times> ndk_state) option" where
  "setState env st s hw =
     (case elementState s of
        ElementStateNull \<Rightarrow>
          (case st of
             ElementStatePaused \<Rightarrow>
               start_or_fail env st (s\<lparr>m_paused := (st = ElementStatePaused)\<rparr>) hw
           | ElementStatePlaying \<Rightarrow> start_or_fail env st s hw
           | ElementStateNull \<Rightarrow> Some (False, s, hw))
      | ElementStatePaused \<Rightarrow>
          (case st of
             ElementStateNull \<Rightarrow>
               (case uninit env s hw of
                  None \<Rightarrow> None
                | Some (s1, hw1) \<Rightarrow> Some (base_setState env st s1 hw1))
           | ElementStatePlaying \<Rightarrow> Some (base_setState env st (s\<lparr>m_paused := False\<rparr>) hw)
           | ElementStatePaused \<Rightarrow> Some (False, s, hw))
      | ElementStatePlaying \<Rightarrow>
          (case st of
             ElementStateNull \<Rightarrow>
               (case uninit env s hw of
                  None \<Rightarrow> None
                | Some (s1, hw1) \<Rightarrow> Some (base_setState env st s1 hw1))
           | ElementStatePaused \<Rightarrow> Some (base_setState env st (s\<lparr>m_paused := True\<rparr>) hw)
           | ElementStatePlaying \<Rightarrow> Some (False, s, hw)))"

text \<open>
  The key-frame interval the element has configured: the entry
  \<^verbatim>\<open>AMEDIAFORMAT_KEY_I_FRAME_INTERVAL\<close> of its format object; and the interval found
  there after a request for state \<open>st\<close> that returned \<open>True\<close>.
\<close>

definition configured_interval :: "encoder \<Rightarrow> format_value option" where
  "configured_interval s =
     (case m_mediaFormat s of
        None \<Rightarrow> None
      | Some (addr, mediaFormat) \<Rightarrow> mediaFormat ''i-frame-interval'')"

definition started_interval ::
  "environment \<Rightarrow> ElementState \<Rightarrow> encoder \<Rightarrow> ndk_state \<Rightarrow> format_value option" where
  "started_interval env st s hw =
     (case setState env st s hw of
        None \<Rightarrow> None
      | Some (ok, s1, hw1) \<Rightarrow> if ok then configured_interval s1 else None)"

text \<open>The frames submitted to the hardware: the \<^verbatim>\<open>AMediaCodec_queueInputBuffer\<close> calls.\<close>

fun is_queueInputBuffer :: "ndk_call \<Rightarrow> bool" where
  "is_queueInputBuffer (Call_queueInputBuffer c idx sz timeUs flags) = True"
| "is_queueInputBuffer other = False"

definition submitted :: "ndk_state \<Rightarrow> ndk_call list" where
  "submitted hw = filter is_queueInputBuffer (ndk_calls hw)"

text \<open>
  The reasons for which a start fails: the input capabilities are not valid, the codec
  name has no MIME type in the catalog, the device has no encoder for the MIME type, or
  the hardware rejects the configuration or the start (the frame rate's denominator
  being non-zero, so that the key-frame interval can be computed at all).
\<close>

definition start_fails :: "environment \<Rightarrow> encoder \<Rightarrow> bool" where
  "start_fails env s =
     (inputCaps s = None
      \<or> mimeType (byName (codec s)) = []
      \<or> \<not> encoder_exists env (mimeType (byName (codec s)))
      \<or> (den (fps (videoConverter_outputCaps s)) \<noteq> 0
          \<and> (configure_status env \<noteq> AMEDIA_OK \<or> start_status env \<noteq> AMEDIA_OK)))"

text \<open>
  What a drain loop may change: the signals sent, the log of calls and the count of
  output waits; nothing else of the element or the hardware, and no frame is submitted.
\<close>

definition drain_frame :: "encoder \<Rightarrow> ndk_state \<Rightarrow> encoder \<Rightarrow> ndk_state \<Rightarrow> bool" where
  "drain_frame s hw s1 hw1 =
     (s1\<lparr>emitted := emitted s\<rparr> = s
      \<and> hw1\<lparr>ndk_calls := ndk_calls hw, outputs_dequeued := outputs_dequeued hw\<rparr> = hw
      \<and> submitted hw1 = submitted hw)"

text \<open>
  A device to run the element on: it has every encoder and accepts the configuration but
  refuses to start; no input buffer ever comes free; one key-frame output buffer of two
  bytes is ready, then none. The two roundings are stand-ins in integer arithmetic. A
  second device differs in that it accepts the start.
\<close>

definition refusing_device :: environment where
  "refusing_device =
     \<lparr>encoder_exists = (\<lambda>mime. True),
      configure_status = AMEDIA_OK,
      start_status = AMEDIA_ERROR (- 10000),
      input_script = (\<lambda>k. - 1),
      output_script = (\<lambda>k. if k = 0
                           then (0, \<lparr>info_offset = 0, info_size = 2,
                                      presentationTimeUs = 100000, info_flags = 1\<rparr>)
                           else (- 1, \<lparr>info_offset = 0, info_size = 0,
                                        presentationTimeUs = 0, info_flags = 0\<rparr>)),
      inputBufferSize = 6,
      outputBuffer = (\<lambda>idx i. of_nat i),
      android_api = 28,
      plane0_bitsSize = (\<lambda>f. 8),
      fpsControl_discard = (\<lambda>packet. False),
      fpsControl_oStream = (\<lambda>packet. [packet]),
      videoConverter_convert = (\<lambda>packet. Some packet),
      qRound64_us = (\<lambda>t tb. 1000000 * t * num tb div den tb),
      qRound64_pts = (\<lambda>us rate. us * num rate div (den rate * 1000000)),
      AkElement_setState = (\<lambda>cur st. (cur \<noteq> st, st))\<rparr>"

definition accepting_device :: environment where
  "accepting_device = refusing_device\<lparr>start_status := AMEDIA_OK\<rparr>"

definition idle_encoder :: encoder where
  "idle_encoder =
     \<lparr>elementState = ElementStateNull,
      inputCaps = Some (caps planar_frame),
      codec = ''h264'',
      bitrate = 1500000,
      gop = 1000,
      fillGaps = False,
      videoConverter_outputCaps = caps planar_frame,
      m_outputCaps = \<lparr>caps_codecID = VideoCodecID_amh264, rawCaps = caps planar_frame,
                      caps_bitrate = 1500000\<rparr>,
      m_headers = None,
      m_codec = None,
      m_mediaFormat = None,
      m_id = 0,
      m_index = 0,
      m_initialized = False,
      m_paused = False,
      m_encodedTimePts = 0,
      m_fpsControl = True,
      emitted = []\<rparr>"

definition fresh_hardware :: ndk_state where
  "fresh_hardware =
     \<lparr>codec_objects = [],
      next_codec = 0,
      next_format = 1,
      ndk_calls = [],
      inputs_dequeued = 0,
      outputs_dequeued = 0,
      input_buffers = (\<lambda>idx a. 0)\<rparr>"

text \<open>
  The same element with a GOP of 1000 ms fed at the NTSC rate 30000/1001, with a GOP of
  2000 ms at 30 frames per second, and with a GOP of 0.
\<close>

definition ntsc_encoder :: encoder where
  "ntsc_encoder =
     idle_encoder\<lparr>videoConverter_outputCaps :=
                    (caps planar_frame)\<lparr>fps := \<lparr>num = 30000, den = 1001\<rparr>\<rparr>\<rparr>"

definition gop2000_encoder :: encoder where
  "gop2000_encoder = idle_encoder\<lparr>gop := 2000\<rparr>"

definition gop0_encoder :: encoder where
  "gop0_encoder = idle_encoder\<lparr>gop := 0\<rparr>"

text \<open>An element in the middle of a session on codec 0.\<close>

definition encoding_encoder :: encoder where
  "encoding_encoder =
     idle_encoder\<lparr>elementState := ElementStatePlaying, m_codec := Some 0,
                  m_mediaFormat := Some (1, format_of_stride 2 2), m_initialized := True\<rparr>"

definition encoding_hardware :: ndk_state where
  "encoding_hardware = fresh_hardware\<lparr>codec_objects := [(0, Codec_Started)], next_codec := 1\<rparr>"

subsection \<open>The recording orchestrator\<close>

text \<open>
  \<^verbatim>\<open>Recording\<close> owns a muxer, a video encoder and an audio encoder, each possibly
  absent (a null pointer, \<open>None\<close>). They are collaborators behind interfaces: the model
  keeps of each what the orchestrator reads from it, and logs, in order, every call made
  on it, every signal the orchestrator emits and every value it persists. A bitrate or
  location set on a collaborator is what it answers afterwards; the encoded time of an
  encoder object is what \<^verbatim>\<open>encodedTimePts()\<close> answers once the encoder has been
  stopped.
\<close>

datatype CapsType = CapsUnknown | CapsAny | CapsAudio | CapsVideo | CapsSubtitle

datatype CompressedCapsType = CapsType_Audio | CapsType_Video

record AkAudioCaps =
  sampleFormat :: nat
  layout :: nat
  planar :: bool
  sampleRate :: int

record AkVideoMuxer =
  muxer :: string
  extension :: string
  gapsAllowed :: "CompressedCapsType \<Rightarrow> bool"
  location :: string

record AkVideoEncoder =
  ve_codec :: string
  ve_bitrate :: int
  ve_fps :: AkFrac
  ve_encodedTimePts :: int

record AkAudioEncoder =
  ae_codec :: string
  ae_bitrate :: int
  ae_rate :: int
  ae_encodedTimePts :: int

datatype rec_event =
    Ev_mkpath string
  | Ev_muxer_setLocation string
  | Ev_muxer_setStreamCaps CompressedCapsType
  | Ev_muxer_setStreamBitrate CompressedCapsType int
  | Ev_muxer_setStreamHeaders CompressedCapsType
  | Ev_muxer_setStreamDuration CompressedCapsType int
  | Ev_muxer_setState ElementState
  | Ev_videoEncoder_setInputCaps AkVideoCaps
  | Ev_videoEncoder_setBitrate int
  | Ev_videoEncoder_setGop int
  | Ev_videoEncoder_setFillGaps bool
  | Ev_videoEncoder_link
  | Ev_videoEncoder_setState ElementState
  | Ev_audioEncoder_setInputCaps AkAudioCaps
  | Ev_audioEncoder_setBitrate int
  | Ev_audioEncoder_setFillGaps bool
  | Ev_audioEncoder_link
  | Ev_audioEncoder_setState ElementState
  | Ev_readThumbnail string
  | Ev_settings_setValue string string int
  | Sig_stateChanged ElementState
  | Sig_bitrateChanged CapsType int
  | Sig_lastVideoChanged string

text \<open>The calls made on the pipeline: the two encoders and the muxer.\<close>

fun is_pipeline_call :: "rec_event \<Rightarrow> bool" where
  "is_pipeline_call (Ev_mkpath d) = False"
| "is_pipeline_call (Ev_readThumbnail f) = False"
| "is_pipeline_call (Ev_settings_setValue g k v) = False"
| "is_pipeline_call (Sig_stateChanged st) = False"
| "is_pipeline_call (Sig_bitrateChanged t b) = False"
| "is_pipeline_call (Sig_lastVideoChanged f) = False"
| "is_pipeline_call other = True"

record recording =
  m_audioCaps :: AkAudioCaps
  m_videoCaps :: AkVideoCaps
  m_audioBitrate :: int
  m_videoBitrate :: int
  m_videoGOP :: int
  m_muxer :: "AkVideoMuxer option"
  m_audioEncoder :: "AkAudioEncoder option"
  m_videoEncoder :: "AkVideoEncoder option"
  m_videoDirectory :: string
  m_lastVideo :: string
  m_thumbnailer :: bool
  m_state :: ElementState
  m_recordAudio :: bool
  m_isRecording :: bool
  m_pause :: bool



text \<open>
  \<^verbatim>\<open>RecordingPrivate::uninit\<close>, the stop sequence. The times in seconds
  (\<^verbatim>\<open>videoDuration / fps.value()\<close>, \<^verbatim>\<open>audioDuration / rate\<close>) are computed in
  floating point and only printed; they reach no collaborator and are left out. With no
  muxer, \<^verbatim>\<open>this->m_muxer->location()\<close> dereferences a null pointer.
\<close>

definition Recording_uninit ::
  "recording \<Rightarrow> rec_event list \<Rightarrow> (recording \<times> rec_event list) option" where
  "Recording_uninit r ev =
     (if \<not> m_isRecording r then Some (r, ev)
      else
        let r1 = r\<lparr>m_isRecording := False\<rparr>;
            (videoDuration, ev1) =
               (case m_videoEncoder r1 of
                  None \<Rightarrow> (0, ev)
                | Some venc \<Rightarrow>
                    (ve_encodedTimePts venc, ev @ [Ev_videoEncoder_setState ElementStateNull]));
            (audioDuration, ev2) =
               (case m_audioEncoder r1 of
                  None \<Rightarrow> (0, ev1)
                | Some aenc \<Rightarrow>
                    (ae_encodedTimePts aenc, ev1 @ [Ev_audioEncoder_setState ElementStateNull]))
        in case m_muxer r1 of
             None \<Rightarrow> None
           | Some mux \<Rightarrow>
               let ev3 = (if 0 < audioDuration
                          then ev2 @ [Ev_muxer_setStreamDuration CapsType_Audio audioDuration]
                          else ev2);
                   ev4 = (if 0 < videoDuration
                          then ev3 @ [Ev_muxer_setStreamDuration CapsType_Video videoDuration]
                          else ev3);
                   ev5 = ev4 @ [Ev_muxer_setState ElementStateNull];
                   loc = location mux
               in if m_lastVideo r1 \<noteq> loc
                  then Some (r1\<lparr>m_lastVideo := loc\<rparr>,
                             (if m_thumbnailer r1 \<and> loc \<noteq> [] then ev5 @ [Ev_readThumbnail loc] else ev5)
                               @ [Sig_lastVideoChanged loc])
                  else Some (r1, ev5))"


text \<open>\<^verbatim>\<open>Recording::setBitrate\<close>; \<^verbatim>\<open>saveBitrate\<close> writes the key of the type in the
  group \<^verbatim>\<open>RecordConfigs\<close>.\<close>

definition setBitrate ::
  "CapsType \<Rightarrow> int \<Rightarrow> recording \<Rightarrow> rec_event list \<Rightarrow> recording \<times> rec_event list" where
  "setBitrate type b r ev =
     (case type of
        CapsAudio \<Rightarrow>
          if m_audioBitrate r = b then (r, ev)
          else (r\<lparr>m_audioBitrate := b\<rparr>,
                ev @ [Sig_bitrateChanged type b,
                      Ev_settings_setValue ''RecordConfigs'' ''audioBitrate'' b])
      | CapsVideo \<Rightarrow>
          if m_videoEncoder r = None then (r, ev)
          else if m_videoBitrate r = b then (r, ev)
          else (r\<lparr>m_videoBitrate := b\<rparr>,
                ev @ [Sig_bitrateChanged type b,
                      Ev_settings_setValue ''RecordConfigs'' ''videoBitrate'' b])
      | _ \<Rightarrow> (r, ev))"

text \<open>
  The final duration of a stream as claim C3 words it: the encoder's last encoded time
  divided by the stream's rate.
\<close>

definition duration_spec :: "int \<Rightarrow> AkFrac \<Rightarrow> rat" where
  "duration_spec encodedTime r = of_int encodedTime / (of_int (num r) / of_int (den r))"

text \<open>
  An orchestrator as constructed, before any configuration is loaded, and one in the
  middle of a recording at 30 frames and 48000 samples per second whose encoders report
  60 and 96000 as encoded times.
\<close>

definition new_recording :: recording where
  "new_recording =
     \<lparr>m_audioCaps = \<lparr>sampleFormat = 0, layout = 0, planar = False, sampleRate = 48000\<rparr>,
      m_videoCaps = caps planar_frame,
      m_audioBitrate = 128000,
      m_videoBitrate = 1500000,
      m_videoGOP = 1000,
      m_muxer = None,
      m_audioEncoder = None,
      m_videoEncoder = None,
      m_videoDirectory = ''/Movies/Webcamoid'',
      m_lastVideo = [],
      m_thumbnailer = True,
      m_state = ElementStateNull,
      m_recordAudio = True,
      m_isRecording = False,
      m_pause = False\<rparr>"

definition webm_muxer :: AkVideoMuxer where
  "webm_muxer = \<lparr>muxer = ''webm'', extension = ''webm'', gapsAllowed = (\<lambda>t. True),
                  location = ''/Movies/Webcamoid/Video 1.webm''\<rparr>"

definition vp8_encoder :: AkVideoEncoder where
  "vp8_encoder = \<lparr>ve_codec = ''vp8'', ve_bitrate = 1500000, ve_fps = \<lparr>num = 30, den = 1\<rparr>,
                   ve_encodedTimePts = 60\<rparr>"

definition opus_encoder :: AkAudioEncoder where
  "opus_encoder = \<lparr>ae_codec = ''opus'', ae_bitrate = 128000, ae_rate = 48000,
                    ae_encodedTimePts = 96000\<rparr>"

definition running_recording :: recording where
  "running_recording =
     new_recording\<lparr>m_muxer := Some webm_muxer, m_videoEncoder := Some vp8_encoder,
                   m_audioEncoder := Some opus_encoder, m_state := ElementStatePlaying,
                   m_isRecording := True\<rparr>"


section \<open>Theorems\<close>

subsection \<open>FrameWriter\<close>

lemma int32_of_id: "- (2 ^ 31) \<le> x \<Longrightarrow> x < 2 ^ 31 \<Longrightarrow> int32_of x = x"
  unfolding int32_of_def
  by (simp add: sint_sbintrunc' signed_take_bit_int_eq_self)

lemma div_pow_bounds:
  fixes x :: int
  assumes "0 \<le> x"
  shows "0 \<le> x div 2 ^ n" and "x div 2 ^ n \<le> x"
proof -
  show "0 \<le> x div 2 ^ n" using assms by (simp add: pos_imp_zdiv_nonneg_iff)
  have "x div 2 ^ n \<le> x div 1"
    using assms by (intro zdiv_mono2) simp_all
  then show "x div 2 ^ n \<le> x" by simp
qed

lemma product_in_int32:
  fixes a b s t :: int
  assumes "0 \<le> a" "a \<le> s" "0 \<le> b" "b \<le> t" "s * t < 2 ^ 31"
  shows "int32_of (a * b) = a * b"
proof -
  have "0 \<le> a * b" using assms(1,3) by simp
  moreover have "a * b \<le> s * t"
    using assms(1-4) by (intro mult_mono) simp_all
  ultimately show ?thesis using assms(5) by (intro int32_of_id) simp_all
qed

lemma writeRows_foldl:
  "0 \<le> y \<Longrightarrow>
   writeRows packet plane oLineSize lineSz oData y buffer =
     foldl (\<lambda>m y'. memcpy m (oData + int32_of ((int y' div 2 ^ heightDiv packet plane) * oLineSize))
                      (constLine packet plane (int y')) lineSz)
       buffer [nat y..<nat (height (caps packet))]"
proof (induction packet plane oLineSize lineSz oData y buffer rule: writeRows.induct)
  case (1 packet plane oLineSize lineSz oData y buffer)
  show ?case
  proof (cases "y < height (caps packet)")
    case True
    with "1.prems" have lt: "nat y < nat (height (caps packet))" by simp
    have nxt: "nat (y + 1) = Suc (nat y)" using "1.prems" by simp
    have ih: "writeRows packet plane oLineSize lineSz oData (y + 1)
             (memcpy buffer (oData + int32_of ((y div 2 ^ heightDiv packet plane) * oLineSize))
                (constLine packet plane y) lineSz) =
          foldl (\<lambda>m y'. memcpy m (oData + int32_of ((int y' div 2 ^ heightDiv packet plane) * oLineSize))
                      (constLine packet plane (int y')) lineSz)
            (memcpy buffer (oData + int32_of ((y div 2 ^ heightDiv packet plane) * oLineSize))
                (constLine packet plane y) lineSz)
            [Suc (nat y)..<nat (height (caps packet))]"
      using "1.IH" [OF True refl] "1.prems" by (simp add: drop_bit_eq_div nxt)
    show ?thesis
      apply (subst writeRows.simps)
      using True "1.prems" lt
      by (simp add: ih upt_conv_Cons [OF lt] drop_bit_eq_div Let_def)
  next
    case False
    then show ?thesis by (subst writeRows.simps) simp
  qed
qed

text \<open>When no row offset leaves the range of \<^verbatim>\<open>int\<close>, the rows are copied as the rule says.\<close>

lemma writeRows_rule:
  assumes "\<And>y'. 0 \<le> y' \<Longrightarrow> y' < height (caps packet) \<Longrightarrow>
             int32_of ((y' div 2 ^ heightDiv packet plane) * oLine)
               = (y' div 2 ^ heightDiv packet plane) * oLine"
  shows "writeRows packet plane oLine (nat (min (int (lineSize packet plane)) oLine)) oData 0 buffer
           = copy_plane_rule packet plane oLine oData buffer"
proof -
  have "foldl (\<lambda>m y'. memcpy m (oData + int32_of ((int y' div 2 ^ heightDiv packet plane) * oLine))
                      (constLine packet plane (int y')) (nat (min (int (lineSize packet plane)) oLine)))
          buffer [0..<nat (height (caps packet))]
      = foldl (\<lambda>m y'. memcpy m (oData + (int y' div 2 ^ heightDiv packet plane) * oLine)
                      (constLine packet plane (int y')) (nat (min (int (lineSize packet plane)) oLine)))
          buffer [0..<nat (height (caps packet))]"
    by (rule foldl_cong) (simp_all add: assms)
  then show ?thesis
    by (simp add: writeRows_foldl copy_plane_rule_def)
qed

lemma copy_len:
  assumes "0 \<le> oLine" "oLine < 2 ^ 64"
  shows "min iLine (size_t oLine) = nat (min (int iLine) oLine)"
  using assms by (auto simp: size_t_def min_def)

lemma writePlanes_foldl:
  assumes ol: "\<And>p. ol p = (if 1 < planes packet then stride div 2 ^ widthDiv packet p else stride)"
    and bounds: "\<And>p. 0 \<le> ol p \<and> ol p < 2 ^ 64"
    and rows_ok: "\<And>p y'. 0 \<le> y' \<Longrightarrow> y' < height (caps packet) \<Longrightarrow>
             int32_of ((y' div 2 ^ heightDiv packet p) * ol p)
               = (y' div 2 ^ heightDiv packet p) * ol p"
    and adv_ok: "\<And>p. int32_of (ol p * (sliceHeight div 2 ^ heightDiv packet p))
                      = ol p * (sliceHeight div 2 ^ heightDiv packet p)"
  shows "writePlanes packet stride sliceHeight plane oData buffer =
     snd (foldl (\<lambda>(cursor, m) p.
                   (cursor + ol p * (sliceHeight div 2 ^ heightDiv packet p),
                    copy_plane_rule packet p (ol p) cursor m))
            (oData, buffer) [plane..<planes packet])"
  using assms
proof (induction packet stride sliceHeight plane oData buffer rule: writePlanes.induct)
  case (1 packet stride sliceHeight plane oData buffer)
  note ol' = "1.prems"(1) and bounds' = "1.prems"(2)
    and rows_ok' = "1.prems"(3) and adv_ok' = "1.prems"(4)
  have len: "min (lineSize packet plane) (size_t (ol plane))
           = nat (min (int (lineSize packet plane)) (ol plane))"
    using bounds' [of plane] by (simp add: copy_len)
  have rows: "writeRows packet plane (ol plane) (min (lineSize packet plane) (size_t (ol plane))) oData 0 buffer
            = copy_plane_rule packet plane (ol plane) oData buffer"
    unfolding len by (rule writeRows_rule) (rule rows_ok')
  show ?case
  proof (cases "plane < planes packet")
    case True
    have step: "writePlanes packet stride sliceHeight plane oData buffer =
                writePlanes packet stride sliceHeight (plane + 1)
                  (oData + int32_of (ol plane * (sliceHeight div 2 ^ heightDiv packet plane)))
                  (writeRows packet plane (ol plane)
                     (min (lineSize packet plane) (size_t (ol plane))) oData 0 buffer)"
      apply (subst writePlanes.simps)
      unfolding Let_def drop_bit_eq_div ol' [of plane]
      using True by simp
    have ih: "writePlanes packet stride sliceHeight (plane + 1)
                  (oData + int32_of (ol plane * (sliceHeight div 2 ^ heightDiv packet plane)))
                  (writeRows packet plane (ol plane)
                     (min (lineSize packet plane) (size_t (ol plane))) oData 0 buffer)
              = snd (foldl (\<lambda>(cursor, m) p.
                   (cursor + ol p * (sliceHeight div 2 ^ heightDiv packet p),
                    copy_plane_rule packet p (ol p) cursor m))
                 (oData + int32_of (ol plane * (sliceHeight div 2 ^ heightDiv packet plane)),
                  writeRows packet plane (ol plane)
                     (min (lineSize packet plane) (size_t (ol plane))) oData 0 buffer)
                 [plane + 1..<planes packet])"
      using "1.IH" [OF True refl refl refl refl ol' bounds' rows_ok' adv_ok']
      unfolding drop_bit_eq_div ol' [of plane, symmetric] .
    show ?thesis
      unfolding step rows
      using ih [unfolded rows adv_ok'] by (simp add: upt_conv_Cons [OF True] adv_ok')
  next
    case False
    then show ?thesis by (subst writePlanes.simps) simp
  qed
qed

lemma getInt32_format_of_stride:
  "AMediaFormat_getInt32 (format_of_stride stride sliceHeight) AMEDIAFORMAT_KEY_STRIDE 0 = stride"
  "AMediaFormat_getInt32 (format_of_stride stride sliceHeight) FORMAT_KEY_SLICE_HEIGHT 0 = sliceHeight"
  by (simp_all add: AMediaFormat_getInt32_def format_of_stride_def)

text \<open>
  The writer run on the planar 2 x 2 frame with stride 2 and slice height 2: the four luma
  bytes, then one byte of each chroma plane, and nothing beyond.
\<close>

lemma writeFrame_planar_example:
  "map (writeFrame (format_of_stride 2 2) planar_frame zero_buffer) [0, 1, 2, 3, 4, 5, 6]
     = [16, 17, 18, 19, 129, 130, 0]"
  by (simp add: writeFrame_def getInt32_format_of_stride writePlanes.simps writeRows.simps
        planar_frame_def memcpy_def size_t_def zero_buffer_def int32_of_id)

text \<open>
  The writer for a frame of any number of planes, as long as the padded plane
  (\<open>stride\<close> bytes by the clamped slice height) is counted within an \<^verbatim>\<open>int\<close>: the plan
  of copies of the rule, with the destination line size the code computes,
  \<^verbatim>\<open>packet.planes() > 1 ? stride >> packet.widthDiv(plane) : stride\<close>.
\<close>

lemma writeFrame_any_planes:
  assumes "stride = AMediaFormat_getInt32 mediaFormat AMEDIAFORMAT_KEY_STRIDE 0"
    and "sliceHeight = AMediaFormat_getInt32 mediaFormat FORMAT_KEY_SLICE_HEIGHT 0"
    and "0 \<le> stride" and "stride < 2 ^ 31"
    and "0 \<le> height (caps packet)"
    and "stride * max sliceHeight (height (caps packet)) < 2 ^ 31"
  shows "writeFrame mediaFormat packet buffer =
           FrameWriter_rule
             (\<lambda>p. if 1 < planes packet then stride div 2 ^ widthDiv packet p else stride)
             sliceHeight packet buffer"
proof -
  define ol where
    "ol = (\<lambda>p. if 1 < planes packet then stride div 2 ^ widthDiv packet p else stride)"
  define S where "S = max sliceHeight (height (caps packet))"
  have S: "0 \<le> S" "height (caps packet) \<le> S" using assms(5) by (simp_all add: S_def)
  have ol: "\<And>p. ol p = (if 1 < planes packet then stride div 2 ^ widthDiv packet p else stride)"
    by (simp add: ol_def)
  have ol_le: "\<And>p. 0 \<le> ol p \<and> ol p \<le> stride"
    using div_pow_bounds [OF assms(3)] assms(3) by (simp add: ol_def)
  have bounds: "\<And>p. 0 \<le> ol p \<and> ol p < 2 ^ 64"
  proof -
    fix p
    from ol_le [of p] assms(4) have "ol p < 2 ^ 31" by simp
    also have "(2::int) ^ 31 < 2 ^ 64" by simp
    finally show "0 \<le> ol p \<and> ol p < 2 ^ 64" using ol_le [of p] by simp
  qed
  have lim: "S * stride < 2 ^ 31" using assms(6) by (simp add: S_def mult.commute)
  have rows_ok: "int32_of ((y' div 2 ^ heightDiv packet p) * ol p)
                   = (y' div 2 ^ heightDiv packet p) * ol p"
    if "0 \<le> y'" and "y' < height (caps packet)" for p y'
  proof (rule product_in_int32 [OF _ _ _ _ lim])
    show "0 \<le> y' div 2 ^ heightDiv packet p" using div_pow_bounds(1) [OF that(1)] .
    show "y' div 2 ^ heightDiv packet p \<le> S"
      using div_pow_bounds(2) [OF that(1), of "heightDiv packet p"] that(2) S(2) by simp
    show "0 \<le> ol p" "ol p \<le> stride" using ol_le [of p] by simp_all
  qed
  have lim': "stride * S < 2 ^ 31" using assms(6) by (simp add: S_def)
  have adv_ok: "int32_of (ol p * (S div 2 ^ heightDiv packet p))
                  = ol p * (S div 2 ^ heightDiv packet p)" for p
  proof (rule product_in_int32 [OF _ _ _ _ lim'])
    show "0 \<le> ol p" "ol p \<le> stride" using ol_le [of p] by simp_all
    show "0 \<le> S div 2 ^ heightDiv packet p" "S div 2 ^ heightDiv packet p \<le> S"
      using div_pow_bounds [OF S(1)] by simp_all
  qed
  have clamp: "(if sliceHeight < height (caps packet) then height (caps packet) else sliceHeight) = S"
    by (simp add: S_def max_def)
  have "writeFrame mediaFormat packet buffer = FrameWriter_rule ol sliceHeight packet buffer"
    unfolding writeFrame_def Let_def assms(1,2) [symmetric] clamp FrameWriter_rule_def S_def [symmetric]
    by (rule writePlanes_foldl [OF ol bounds rows_ok adv_ok])
  then show ?thesis unfolding ol_def .
qed

text \<open>
  Claim C1: for every raw video frame written into a hardware input buffer, the
  FrameWriter copies, for each plane, \<open>min (source line size) (stride >> widthDiv)\<close>
  bytes from each source row \<open>y\<close> in \<open>[0, frameHeight)\<close> to destination row
  \<open>y >> heightDiv\<close>, then advances the destination cursor by
  \<open>(stride >> widthDiv) * (sliceHeight >> heightDiv)\<close> before the next plane, where
  \<open>sliceHeight\<close> is first clamped to be at least the frame's height. The frames written
  are those the converter hands to \<^verbatim>\<open>encodeFrame\<close>: in one of the planar formats of
  the pixel-format table, hence of more than one plane, with shifts below the width of an
  \<^verbatim>\<open>int\<close>, a stride that is a non-negative \<^verbatim>\<open>int32_t\<close>, and a padded plane
  (\<open>stride\<close> bytes by the clamped slice height) counted within an \<^verbatim>\<open>int\<close>.
\<close>

theorem C1_writeFrame_rule:
  assumes "stride = AMediaFormat_getInt32 mediaFormat AMEDIAFORMAT_KEY_STRIDE 0"
    and "sliceHeight = AMediaFormat_getInt32 mediaFormat FORMAT_KEY_SLICE_HEIGHT 0"
    and "1 < planes packet"
    and "shifts_in_range packet"
    and "0 \<le> stride" and "stride < 2 ^ 31"
    and "0 \<le> height (caps packet)"
    and "stride * max sliceHeight (height (caps packet)) < 2 ^ 31"
  shows "writeFrame mediaFormat packet buffer = writeFrame_spec stride sliceHeight packet buffer"
  using writeFrame_any_planes [OF assms(1,2,5,6,7,8), of buffer] assms(3)
  by (simp add: writeFrame_spec_def)

theorem C1_writeFrame_rule_witness:
  "2 = AMediaFormat_getInt32 (format_of_stride 2 2) AMEDIAFORMAT_KEY_STRIDE 0
   \<and> 2 = AMediaFormat_getInt32 (format_of_stride 2 2) FORMAT_KEY_SLICE_HEIGHT 0
   \<and> 1 < planes planar_frame \<and> shifts_in_range planar_frame
   \<and> (0::int) \<le> 2 \<and> (2::int) < 2 ^ 31 \<and> 0 \<le> height (caps planar_frame)
   \<and> 2 * max 2 (height (caps planar_frame)) < 2 ^ 31
   \<and> writeFrame (format_of_stride 2 2) planar_frame zero_buffer
       = writeFrame_spec 2 2 planar_frame zero_buffer"
proof -
  have h1: "2 = AMediaFormat_getInt32 (format_of_stride 2 2) AMEDIAFORMAT_KEY_STRIDE 0"
    and h2: "2 = AMediaFormat_getInt32 (format_of_stride 2 2) FORMAT_KEY_SLICE_HEIGHT 0"
    by (simp_all add: getInt32_format_of_stride)
  have h3: "1 < planes planar_frame" by (simp add: planar_frame_def)
  have h4: "shifts_in_range planar_frame"
    by (simp add: shifts_in_range_def planar_frame_def upt_rec)
  have h5: "(0::int) \<le> 2" and h6: "(2::int) < 2 ^ 31" by simp_all
  have h7: "0 \<le> height (caps planar_frame)" by (simp add: planar_frame_def)
  have h8: "2 * max 2 (height (caps planar_frame)) < 2 ^ 31" by (simp add: planar_frame_def)
  from C1_writeFrame_rule [OF h1 h2 h3 h4 h5 h6 h7 h8, of zero_buffer]
  have "writeFrame (format_of_stride 2 2) planar_frame zero_buffer
       = writeFrame_spec 2 2 planar_frame zero_buffer" .
  with h1 h2 h3 h4 h5 h6 h7 h8 show ?thesis by blast
qed

subsection \<open>Hardware-availability cache\<close>

lemma c_str_fits: "fits_entry mime \<Longrightarrow> c_str mime = mime"
  by (auto simp: fits_entry_def c_str_def takeWhile_eq_all_conv)

lemma qstrncpy_fits: "fits_entry mime \<Longrightarrow> qstrncpy mime 1024 = mime"
proof -
  assume f: "fits_entry mime"
  show ?thesis
    unfolding qstrncpy_def c_str_fits [OF f]
    using f by (simp add: fits_entry_def)
qed

lemma cache_scan_append:
  "cache_scan (es @ [e]) mime =
     (case cache_scan es mime of Some r \<Rightarrow> Some r
      | None \<Rightarrow> if fst e = mime then Some (snd e) else None)"
  by (induction es) auto

lemma cache_scan_None: "cache_scan es mime = None \<longleftrightarrow> mime \<notin> fst ` set es"
  by (induction es) auto

lemma isAvailable_keeps_hit:
  assumes "cache_scan (ndkmediaVideoEncAvailableCodecs cache) mime = Some r"
    and "isAvailable probe mime' cache = Some (r', cache')"
  shows "cache_scan (ndkmediaVideoEncAvailableCodecs cache') mime = Some r"
  using assms
  by (auto simp: isAvailable_def Let_def cache_scan_append split: option.splits if_splits)

lemma isAvailable_calls_keep_hit:
  "cache_scan (ndkmediaVideoEncAvailableCodecs cache) mime = Some r \<Longrightarrow>
   isAvailable_calls cs cache = Some cache' \<Longrightarrow>
   cache_scan (ndkmediaVideoEncAvailableCodecs cache') mime = Some r"
proof (induction cs arbitrary: cache)
  case Nil
  then show ?case by simp
next
  case (Cons c cs)
  obtain probe mime' where c: "c = (probe, mime')" by (cases c)
  from Cons.prems(2) c obtain r' cache1 where
    step: "isAvailable probe mime' cache = Some (r', cache1)"
    and rest: "isAvailable_calls cs cache1 = Some cache'"
    by (auto split: option.splits)
  from isAvailable_keeps_hit [OF Cons.prems(1) step]
  have "cache_scan (ndkmediaVideoEncAvailableCodecs cache1) mime = Some r" .
  from Cons.IH [OF this rest] show ?case .
qed

lemma isAvailable_first_call_stores:
  assumes "fits_entry mime" and "isAvailable probe mime cache = Some (r, cache')"
  shows "cache_scan (ndkmediaVideoEncAvailableCodecs cache') mime = Some r"
  using assms
  by (auto simp: isAvailable_def Let_def cache_scan_append qstrncpy_fits
           split: option.splits if_splits)

text \<open>
  Memoization for any MIME type that fits an entry of the cache, whenever the calls
  return: a call after one that returned gives the same answer and changes nothing.
\<close>

lemma isAvailable_memoized_fits:
  assumes "fits_entry mime"
    and "isAvailable probe1 mime cache0 = Some (r, cache1)"
    and "isAvailable_calls later cache1 = Some cache2"
  shows "isAvailable probe2 mime cache2 = Some (r, cache2)"
proof -
  have "cache_scan (ndkmediaVideoEncAvailableCodecs cache1) mime = Some r"
    using isAvailable_first_call_stores [OF assms(1,2)] .
  then have "cache_scan (ndkmediaVideoEncAvailableCodecs cache2) mime = Some r"
    using assms(3) by (rule isAvailable_calls_keep_hit)
  then show ?thesis by (simp add: isAvailable_def)
qed

lemma catalog_mimes_fit:
  "list_all (\<lambda>c. fits_entry (mimeType c)) ndkmediaVideoEncCodecsTable"
  by (simp add: ndkmediaVideoEncCodecsTable_def fits_entry_def)

lemma catalog_fits: "catalog_mime mime \<Longrightarrow> fits_entry mime"
  using catalog_mimes_fit by (auto simp: catalog_mime_def list_all_iff)

lemma byName_h264: "mimeType (byName ''h264'') = ''video/avc''"
  by (simp add: byName_def ndkmediaVideoEncCodecsTable_def)

text \<open>\<^verbatim>\<open>listCodecs\<close> asks for the MIME types of the catalog, one after the other.\<close>

lemma listCodecs_from_calls:
  "map_option snd (listCodecs_from probe formats cs m_codecs cache)
     = isAvailable_calls (map (\<lambda>c. (probe, mimeType c)) cs) cache"
  by (induction cs arbitrary: m_codecs cache) (auto split: option.splits)

lemma listCodecs_catalog_calls:
  "catalog_calls (map (\<lambda>c. (probe, mimeType c)) ndkmediaVideoEncCodecsTable)"
  by (simp add: ndkmediaVideoEncCodecsTable_def catalog_mime_def)

text \<open>
  Asked for catalog MIME types only, the cache never holds more than one entry for each
  of the five, so the array of 32 entries is never overrun and every call returns.
\<close>

lemma catalog_cache_length:
  assumes "catalog_cache cache"
  shows "length (ndkmediaVideoEncAvailableCodecs cache) \<le> 5"
proof -
  let ?keys = "map fst (ndkmediaVideoEncAvailableCodecs cache)"
  from assms have d: "distinct ?keys"
    and sub: "set ?keys \<subseteq> set (map mimeType ndkmediaVideoEncCodecsTable)"
    by (auto simp: catalog_cache_def list_all_iff catalog_mime_def)
  have "length ?keys = card (set ?keys)" by (rule distinct_card [OF d, symmetric])
  also have "\<dots> \<le> card (set (map mimeType ndkmediaVideoEncCodecsTable))"
    using sub by (intro card_mono) simp_all
  also have "\<dots> \<le> length (map mimeType ndkmediaVideoEncCodecsTable)" by (rule card_length)
  also have "\<dots> = 5" by (simp add: ndkmediaVideoEncCodecsTable_def)
  finally show ?thesis by simp
qed

lemma isAvailable_catalog_step:
  assumes "catalog_cache cache" and "catalog_mime mime"
  shows "\<exists>r cache'. isAvailable probe mime cache = Some (r, cache')
           \<and> catalog_cache cache'
           \<and> cache_scan (ndkmediaVideoEncAvailableCodecs cache') mime = Some r
           \<and> (mime \<notin> fst ` set (ndkmediaVideoEncAvailableCodecs cache) \<longrightarrow>
                r = probe mime \<and> probes cache' = probes cache @ [mime])
           \<and> fst ` set (ndkmediaVideoEncAvailableCodecs cache')
               \<subseteq> insert mime (fst ` set (ndkmediaVideoEncAvailableCodecs cache))"
proof (cases "cache_scan (ndkmediaVideoEncAvailableCodecs cache) mime")
  case (Some r)
  then have "mime \<in> fst ` set (ndkmediaVideoEncAvailableCodecs cache)"
    using cache_scan_None [of "ndkmediaVideoEncAvailableCodecs cache" mime] by auto
  with Some assms(1) show ?thesis by (auto simp: isAvailable_def)
next
  case None
  then have fresh: "mime \<notin> fst ` set (ndkmediaVideoEncAvailableCodecs cache)"
    by (simp add: cache_scan_None)
  note f = catalog_fits [OF assms(2)]
  have len: "length (ndkmediaVideoEncAvailableCodecs cache) < 32"
    using catalog_cache_length [OF assms(1)] by simp
  let ?cache' = "cache\<lparr>ndkmediaVideoEncAvailableCodecs :=
                          ndkmediaVideoEncAvailableCodecs cache @ [(mime, probe mime)],
                        probes := probes cache @ [mime]\<rparr>"
  have call: "isAvailable probe mime cache = Some (probe mime, ?cache')"
    using None len by (simp add: isAvailable_def Let_def qstrncpy_fits [OF f] c_str_fits [OF f])
  have inv: "catalog_cache ?cache'"
    using assms fresh by (auto simp: catalog_cache_def)
  have hit: "cache_scan (ndkmediaVideoEncAvailableCodecs ?cache') mime = Some (probe mime)"
    using None by (simp add: cache_scan_append)
  from call inv hit show ?thesis by auto
qed

lemma isAvailable_calls_catalog:
  "catalog_cache cache \<Longrightarrow> catalog_calls cs \<Longrightarrow>
   \<exists>cache'. isAvailable_calls cs cache = Some cache' \<and> catalog_cache cache'
      \<and> fst ` set (ndkmediaVideoEncAvailableCodecs cache')
          \<subseteq> fst ` set (ndkmediaVideoEncAvailableCodecs cache) \<union> snd ` set cs"
proof (induction cs arbitrary: cache)
  case Nil
  then show ?case by simp
next
  case (Cons c cs)
  obtain probe mime where c: "c = (probe, mime)" by (cases c)
  from Cons.prems(2) c have m: "catalog_mime mime" and rest: "catalog_calls cs" by simp_all
  from isAvailable_catalog_step [OF Cons.prems(1) m, of probe] obtain r cache1 where
    step: "isAvailable probe mime cache = Some (r, cache1)"
    and inv1: "catalog_cache cache1"
    and keys1: "fst ` set (ndkmediaVideoEncAvailableCodecs cache1)
                  \<subseteq> insert mime (fst ` set (ndkmediaVideoEncAvailableCodecs cache))"
    by blast
  from Cons.IH [OF inv1 rest] obtain cache' where
    calls: "isAvailable_calls cs cache1 = Some cache'"
    and inv': "catalog_cache cache'"
    and keys': "fst ` set (ndkmediaVideoEncAvailableCodecs cache')
                  \<subseteq> fst ` set (ndkmediaVideoEncAvailableCodecs cache1) \<union> snd ` set cs"
    by blast
  have "isAvailable_calls (c # cs) cache = Some cache'"
    using c step calls by simp
  moreover have "fst ` set (ndkmediaVideoEncAvailableCodecs cache')
          \<subseteq> fst ` set (ndkmediaVideoEncAvailableCodecs cache) \<union> snd ` set (c # cs)"
  proof -
    have "fst ` set (ndkmediaVideoEncAvailableCodecs cache')
            \<subseteq> insert mime (fst ` set (ndkmediaVideoEncAvailableCodecs cache)) \<union> snd ` set cs"
      using keys1 keys' by blast
    then show ?thesis by (simp add: c)
  qed
  ultimately show ?case using inv' by blast
qed

lemma empty_cache_catalog: "catalog_cache empty_cache"
  by (simp add: catalog_cache_def empty_cache_def)

text \<open>
  Claim C6: \<^verbatim>\<open>isAvailable\<close> is memoized for the process lifetime. The cache starts
  empty with the process and is asked, by \<^verbatim>\<open>listCodecs\<close>, for the MIME types of the
  catalog. Whatever calls came before, a call for a MIME type returns a boolean \<open>r\<close>;
  after any further calls, a later call for the same MIME type returns the same \<open>r\<close> and
  leaves the cache and the log of hardware probes as they are, whatever the hardware
  would answer then (\<open>probe2\<close>). The first call for a MIME type is the one that probes:
  its answer is the hardware's, and the probe is logged.
\<close>

theorem C6_isAvailable_memoized:
  assumes "catalog_mime mime" and "catalog_calls before" and "catalog_calls later"
  shows "\<exists>cache0 r cache1 cache2.
           isAvailable_calls before empty_cache = Some cache0
         \<and> isAvailable probe1 mime cache0 = Some (r, cache1)
         \<and> isAvailable_calls later cache1 = Some cache2
         \<and> isAvailable probe2 mime cache2 = Some (r, cache2)
         \<and> (mime \<notin> snd ` set before \<longrightarrow>
              r = probe1 mime \<and> probes cache1 = probes cache0 @ [mime])"
proof -
  from isAvailable_calls_catalog [OF empty_cache_catalog assms(2)] obtain cache0 where
    c0: "isAvailable_calls before empty_cache = Some cache0"
    and inv0: "catalog_cache cache0"
    and keys0: "fst ` set (ndkmediaVideoEncAvailableCodecs cache0) \<subseteq> snd ` set before"
    by (auto simp: empty_cache_def)
  from isAvailable_catalog_step [OF inv0 assms(1), of probe1] obtain r cache1 where
    c1: "isAvailable probe1 mime cache0 = Some (r, cache1)"
    and inv1: "catalog_cache cache1"
    and first: "mime \<notin> fst ` set (ndkmediaVideoEncAvailableCodecs cache0) \<longrightarrow>
                  r = probe1 mime \<and> probes cache1 = probes cache0 @ [mime]"
    by blast
  from isAvailable_calls_catalog [OF inv1 assms(3)] obtain cache2 where
    c2: "isAvailable_calls later cache1 = Some cache2"
    by blast
  have c3: "isAvailable probe2 mime cache2 = Some (r, cache2)"
    using catalog_fits [OF assms(1)] c1 c2 by (rule isAvailable_memoized_fits)
  have "mime \<notin> snd ` set before \<longrightarrow> r = probe1 mime \<and> probes cache1 = probes cache0 @ [mime]"
    using first keys0 by blast
  with c0 c1 c2 c3 show ?thesis by blast
qed

theorem C6_isAvailable_memoized_witness:
  "catalog_mime ''video/avc''
   \<and> catalog_calls [(probe_no, ''video/hevc'')]
   \<and> catalog_calls [(probe_no, ''video/avc''), (probe_no, ''video/av01'')]
   \<and> isAvailable probe_yes ''video/avc''
        \<lparr>ndkmediaVideoEncAvailableCodecs = [(''video/hevc'', False)], probes = [''video/hevc'']\<rparr>
       = Some (True, \<lparr>ndkmediaVideoEncAvailableCodecs = [(''video/hevc'', False), (''video/avc'', True)],
                      probes = [''video/hevc'', ''video/avc'']\<rparr>)
   \<and> isAvailable probe_no ''video/avc''
        \<lparr>ndkmediaVideoEncAvailableCodecs =
           [(''video/hevc'', False), (''video/avc'', True), (''video/av01'', False)],
         probes = [''video/hevc'', ''video/avc'', ''video/av01'']\<rparr>
       = Some (True, \<lparr>ndkmediaVideoEncAvailableCodecs =
                        [(''video/hevc'', False), (''video/avc'', True), (''video/av01'', False)],
                      probes = [''video/hevc'', ''video/avc'', ''video/av01'']\<rparr>)"
proof -
  let ?c0 = "\<lparr>ndkmediaVideoEncAvailableCodecs = [(''video/hevc'', False)], probes = [''video/hevc'']\<rparr>"
  let ?c1 = "\<lparr>ndkmediaVideoEncAvailableCodecs = [(''video/hevc'', False), (''video/avc'', True)],
              probes = [''video/hevc'', ''video/avc'']\<rparr>"
  let ?c2 = "\<lparr>ndkmediaVideoEncAvailableCodecs =
                [(''video/hevc'', False), (''video/avc'', True), (''video/av01'', False)],
              probes = [''video/hevc'', ''video/avc'', ''video/av01'']\<rparr>"
  have h1: "catalog_mime ''video/avc''"
    by (simp add: catalog_mime_def ndkmediaVideoEncCodecsTable_def)
  have h2: "catalog_calls [(probe_no, ''video/hevc'')]"
    by (simp add: catalog_mime_def ndkmediaVideoEncCodecsTable_def)
  have h3: "catalog_calls [(probe_no, ''video/avc''), (probe_no, ''video/av01'')]"
    by (simp add: catalog_mime_def ndkmediaVideoEncCodecsTable_def)
  have e0: "isAvailable_calls [(probe_no, ''video/hevc'')] empty_cache = Some ?c0"
    by (simp add: isAvailable_def empty_cache_def qstrncpy_def c_str_def Let_def probe_no_def)
  have e1: "isAvailable probe_yes ''video/avc'' ?c0 = Some (True, ?c1)"
    by (simp add: isAvailable_def qstrncpy_def c_str_def Let_def probe_yes_def)
  have e2: "isAvailable_calls [(probe_no, ''video/avc''), (probe_no, ''video/av01'')] ?c1 = Some ?c2"
    by (simp add: isAvailable_def qstrncpy_def c_str_def Let_def probe_no_def)
  from C6_isAvailable_memoized [OF h1 h2 h3, of probe_yes probe_no]
  obtain cache0 r cache1 cache2 where
    "isAvailable_calls [(probe_no, ''video/hevc'')] empty_cache = Some cache0"
    "isAvailable probe_yes ''video/avc'' cache0 = Some (r, cache1)"
    "isAvailable_calls [(probe_no, ''video/avc''), (probe_no, ''video/av01'')] cache1 = Some cache2"
    "isAvailable probe_no ''video/avc'' cache2 = Some (r, cache2)"
    by blast
  with e0 e1 e2 have "isAvailable probe_no ''video/avc'' ?c2 = Some (True, ?c2)" by simp
  with h1 h2 h3 e1 show ?thesis by blast
qed

subsection \<open>Encoder session: drain loops, idle sessions, the encoded-time counter\<close>

lemma drain_frame_refl: "drain_frame s hw s hw"
  by (simp add: drain_frame_def)

lemma drain_frame_trans:
  "drain_frame s hw s1 hw1 \<Longrightarrow> drain_frame s1 hw1 s2 hw2 \<Longrightarrow> drain_frame s hw s2 hw2"
  unfolding drain_frame_def
  by (cases s, cases s1, cases s2, cases hw, cases hw1, cases hw2) auto

lemma drain_frame_dequeue:
  "AMediaCodec_dequeueOutputBuffer env c hw = (i, info, hw1) \<Longrightarrow> drain_frame s hw s hw1"
  by (cases hw) (auto simp: drain_frame_def AMediaCodec_dequeueOutputBuffer_def log_call_def submitted_def)

lemma drain_frame_send:
  "drain_frame s hw (sendFrame env s buf info)
     (log_call (Call_releaseOutputBuffer c idx b) (log_call (Call_getOutputBuffer c idx) hw))"
  by (cases hw, cases s) (auto simp: drain_frame_def sendFrame_def log_call_def submitted_def Let_def)

lemma encodeFrame_drain_frame:
  assumes "encodeFrame_drain env c s hw = Some y"
  shows "drain_frame s hw (fst y) (snd y)"
  using assms
proof (induction rule: encodeFrame_drain.raw_induct [rotated 1, consumes 1])
  case (1 f env c s hw y)
  obtain i info hw1 where deq: "AMediaCodec_dequeueOutputBuffer env c hw = (i, info, hw1)"
    by (cases "AMediaCodec_dequeueOutputBuffer env c hw") auto
  note d1 = drain_frame_dequeue [OF deq, of s]
  show ?case
  proof (cases "i < 0")
    case True
    with "1.hyps" deq d1 show ?thesis by auto
  next
    case False
    show ?thesis
    proof (cases "info_flags info AND AMEDIACODEC_BUFFER_FLAG_CODEC_CONFIG \<noteq> 0")
      case True
      with False "1.hyps" deq have "f env c s hw1 = Some y" by auto
      from "1.IH" [OF this] d1 show ?thesis by (rule drain_frame_trans [rotated])
    next
      case cfg: False
      let ?s1 = "sendFrame env s (outputBuffer env (nat i)) info"
      let ?hw3 = "log_call (Call_releaseOutputBuffer c (nat i) (0 < info_size info))
                    (log_call (Call_getOutputBuffer c (nat i)) hw1)"
      from cfg False "1.hyps" deq have "f env c ?s1 ?hw3 = Some y" by (auto simp: Let_def)
      from "1.IH" [OF this] have "drain_frame ?s1 ?hw3 (fst y) (snd y)" .
      with drain_frame_send [of s hw1] have "drain_frame s hw1 (fst y) (snd y)"
        by (rule drain_frame_trans)
      with d1 show ?thesis by (rule drain_frame_trans)
    qed
  qed
qed


lemma uninit_drain_frame:
  assumes "uninit_drain env c eos s hw = Some y"
  shows "drain_frame s hw (fst y) (snd y)"
  using assms
proof (induction rule: uninit_drain.raw_induct [rotated 1, consumes 1])
  case (1 f env c eos s hw y)
  show ?case
  proof (cases eos)
    case True
    with "1.hyps" show ?thesis by (auto simp: drain_frame_refl)
  next
    case noeos: False
    obtain i info hw1 where deq: "AMediaCodec_dequeueOutputBuffer env c hw = (i, info, hw1)"
      by (cases "AMediaCodec_dequeueOutputBuffer env c hw") auto
    note d1 = drain_frame_dequeue [OF deq, of s]
    show ?thesis
    proof (cases "i < 0")
      case True
      with noeos "1.hyps" deq d1 show ?thesis by auto
    next
      case False
      show ?thesis
      proof (cases "info_flags info AND AMEDIACODEC_BUFFER_FLAG_CODEC_CONFIG \<noteq> 0")
        case True
        with noeos False "1.hyps" deq have "f env c eos s hw1 = Some y" by auto
        from "1.IH" [OF this] d1 show ?thesis by (rule drain_frame_trans [rotated])
      next
        case cfg: False
        let ?s1 = "sendFrame env s (outputBuffer env (nat i)) info"
        let ?hw3 = "log_call (Call_releaseOutputBuffer c (nat i) (0 < info_size info))
                      (log_call (Call_getOutputBuffer c (nat i)) hw1)"
        from cfg noeos False "1.hyps" deq
        have "f env c (info_flags info AND AMEDIACODEC_BUFFER_FLAG_END_OF_STREAM \<noteq> 0 \<or> eos) ?s1 ?hw3 = Some y"
          by (auto simp: Let_def)
        from "1.IH" [OF this] have "drain_frame ?s1 ?hw3 (fst y) (snd y)" .
        with drain_frame_send [of s hw1] have "drain_frame s hw1 (fst y) (snd y)"
          by (rule drain_frame_trans)
        with d1 show ?thesis by (rule drain_frame_trans)
      qed
    qed
  qed
qed

lemma drain_frame_fields:
  assumes "drain_frame s hw s1 hw1"
  shows "m_initialized s1 = m_initialized s" "m_paused s1 = m_paused s"
    "m_codec s1 = m_codec s" "m_fpsControl s1 = m_fpsControl s"
    "elementState s1 = elementState s" "m_encodedTimePts s1 = m_encodedTimePts s"
    "codec_objects hw1 = codec_objects hw" "input_buffers hw1 = input_buffers hw"
    "submitted hw1 = submitted hw"
  using assms unfolding drain_frame_def
  by (cases s, cases s1, cases hw, cases hw1, auto)+

lemma encodeFrame_drain_returns:
  "fst (output_script env (outputs_dequeued hw + k)) < 0 \<Longrightarrow>
   \<exists>y. encodeFrame_drain env c s hw = Some y"
proof (induction k arbitrary: s hw)
  case 0
  then show ?case
    by (subst encodeFrame_drain.simps) (simp add: AMediaCodec_dequeueOutputBuffer_def)
next
  case (Suc k)
  let ?hw1 = "(log_call (Call_dequeueOutputBuffer c) hw)\<lparr>outputs_dequeued := outputs_dequeued hw + 1\<rparr>"
  have next1: "\<And>s'. \<exists>y. encodeFrame_drain env c s' ?hw1 = Some y"
    using Suc.prems by (intro Suc.IH) (simp add: log_call_def)
  have next3: "\<And>s' c1 c2. \<exists>y. encodeFrame_drain env c s' (log_call c1 (log_call c2 ?hw1)) = Some y"
    using Suc.prems by (intro Suc.IH) (simp add: log_call_def)
  show ?case
    apply (subst encodeFrame_drain.simps)
    using next1 next3
    by (simp add: AMediaCodec_dequeueOutputBuffer_def Let_def)
qed

lemma uninit_not_initialized:
  "\<not> m_initialized s \<Longrightarrow> uninit env s hw = Some (s, hw)"
  by (simp add: uninit_def)

lemma uninit_result_idle:
  assumes "uninit env s hw = Some (s1, hw1)"
  shows "\<not> m_initialized s1"
proof (cases "m_initialized s")
  case False
  with assms show ?thesis by (simp add: uninit_def)
next
  case True
  show ?thesis
  proof (cases "m_codec s")
    case None
    with True assms show ?thesis by (auto simp: uninit_def Let_def)
  next
    case (Some c)
    obtain i hwa where deq: "AMediaCodec_dequeueInputBuffer env c hw = (i, hwa)"
      by (cases "AMediaCodec_dequeueInputBuffer env c hw") auto
    define hwb where "hwb = (if 0 \<le> i
                                then AMediaCodec_queueInputBuffer c (nat i) 0 0
                                       AMEDIACODEC_BUFFER_FLAG_END_OF_STREAM hwa
                                else hwa)"
    from True Some assms deq obtain s2 hw3 where
      dr: "uninit_drain env c False (s\<lparr>m_initialized := False\<rparr>) hwb = Some (s2, hw3)"
      and s1: "s1 = s2\<lparr>m_mediaFormat := None, m_codec := None, m_paused := False\<rparr>"
      by (auto simp: uninit_def Let_def hwb_def split: option.splits if_splits)
    from drain_frame_fields(1) [OF uninit_drain_frame [OF dr]] have "\<not> m_initialized s2" by simp
    with s1 show ?thesis by simp
  qed
qed

lemma uninit_drain_returns:
  "fst (output_script env (outputs_dequeued hw + k)) < 0 \<Longrightarrow>
   \<exists>y. uninit_drain env c eos s hw = Some y"
proof (induction k arbitrary: s hw eos)
  case 0
  then show ?case
    by (subst uninit_drain.simps) (simp add: AMediaCodec_dequeueOutputBuffer_def)
next
  case (Suc k)
  let ?hw1 = "(log_call (Call_dequeueOutputBuffer c) hw)\<lparr>outputs_dequeued := outputs_dequeued hw + 1\<rparr>"
  have next1: "\<And>s' e. \<exists>y. uninit_drain env c e s' ?hw1 = Some y"
    using Suc.prems by (intro Suc.IH) (simp add: log_call_def)
  have next3: "\<And>s' e c1 c2. \<exists>y. uninit_drain env c e s' (log_call c1 (log_call c2 ?hw1)) = Some y"
    using Suc.prems by (intro Suc.IH) (simp add: log_call_def)
  show ?case
    apply (subst uninit_drain.simps)
    using next1 next3
    by (simp add: AMediaCodec_dequeueOutputBuffer_def Let_def)
qed

lemma uninit_returns:
  assumes "fst (output_script env (outputs_dequeued hw + k)) < 0"
  shows "\<exists>y. uninit env s hw = Some y"
proof (cases "m_initialized s \<and> m_codec s \<noteq> None")
  case False
  then show ?thesis by (auto simp: uninit_def Let_def)
next
  case True
  then obtain c where c: "m_codec s = Some c" by auto
  have d: "\<And>hw'. outputs_dequeued hw' = outputs_dequeued hw \<Longrightarrow>
             \<exists>y. uninit_drain env c False (s\<lparr>m_initialized := False\<rparr>) hw' = Some y"
    using assms by (intro uninit_drain_returns [where k = k]) simp
  have d1: "\<exists>y. uninit_drain env c False (s\<lparr>m_initialized := False\<rparr>)
                  (snd (AMediaCodec_dequeueInputBuffer env c hw)) = Some y"
    by (rule d) (simp add: AMediaCodec_dequeueInputBuffer_def log_call_def)
  have d2: "\<And>i. \<exists>y. uninit_drain env c False (s\<lparr>m_initialized := False\<rparr>)
                  (AMediaCodec_queueInputBuffer c i 0 0 AMEDIACODEC_BUFFER_FLAG_END_OF_STREAM
                     (snd (AMediaCodec_dequeueInputBuffer env c hw))) = Some y"
    by (rule d) (simp add: AMediaCodec_dequeueInputBuffer_def AMediaCodec_queueInputBuffer_def log_call_def)
  obtain i hwa where deq: "AMediaCodec_dequeueInputBuffer env c hw = (i, hwa)"
    by (cases "AMediaCodec_dequeueInputBuffer env c hw") auto
  from d1 d2 [of "nat i"] deq True c show ?thesis
    by (auto simp: uninit_def Let_def split: option.splits)
qed

lemma init_success_initialized:
  "init env s hw = Some (True, s1, hw1) \<Longrightarrow> m_initialized s1"
  by (auto simp: init_def Let_def split: option.splits prod.splits if_splits)

lemma accepted_start_example:
  "\<exists>s1 hw1. init accepting_device idle_encoder fresh_hardware = Some (True, s1, hw1)
     \<and> m_codec s1 = Some 0 \<and> codec_objects hw1 = [(0, Codec_Started)]"
  by (simp add: init_def uninit_def idle_encoder_def accepting_device_def
        refusing_device_def fresh_hardware_def byName_h264 planar_frame_def
        AMediaCodec_createEncoderByType_def AMediaCodec_configure_def AMediaCodec_start_def
        log_call_def set_codec_status_def init_gop_def c_div_def Let_def updateHeaders_def)

text \<open>
  Claim C8: for every input frame delivered while the session is idle (not started, or
  after a stop), \<^verbatim>\<open>encode\<close> (\<^verbatim>\<open>iVideoStream\<close>) is a no-op: the element, the signals
  it has sent, the hardware state and the log of calls are all returned as they were.
  A stop (\<^verbatim>\<open>uninit\<close>) leaves the session idle, and only a start that succeeds ends
  the idleness.
\<close>

theorem C8_encode_idle_noop:
  "(\<not> m_initialized s \<longrightarrow> iVideoStream env packet s hw = Some (s, hw))
   \<and> (uninit env s0 hw0 = Some (s, hw) \<longrightarrow> iVideoStream env packet s hw = Some (s, hw))
   \<and> (init env s2 hw2 = Some (ok, s3, hw3) \<longrightarrow> (m_initialized s3 \<longleftrightarrow> ok))"
proof -
  have "m_initialized s3 = ok" if i: "init env s2 hw2 = Some (ok, s3, hw3)"
  proof (cases ok)
    case True
    with i show ?thesis by (simp add: init_success_initialized)
  next
    case False
    obtain sa hwa where u: "uninit env s2 hw2 = Some (sa, hwa)"
      using i by (auto simp: init_def split: option.splits)
    note idle = uninit_result_idle [OF u]
    from i u False idle have "\<not> m_initialized s3"
      by (auto simp: init_def Let_def split: option.splits prod.splits if_splits)
    with False show ?thesis by simp
  qed
  then show ?thesis
    using uninit_result_idle [of env s0 hw0 s hw]
    by (auto simp: iVideoStream_def)
qed

theorem C8_encode_idle_noop_witness:
  "\<not> m_initialized idle_encoder
   \<and> iVideoStream refusing_device planar_frame idle_encoder fresh_hardware
       = Some (idle_encoder, fresh_hardware)
   \<and> (\<exists>s hw. uninit refusing_device encoding_encoder encoding_hardware = Some (s, hw)
         \<and> iVideoStream refusing_device planar_frame s hw = Some (s, hw))
   \<and> (\<exists>s3 hw3. init accepting_device idle_encoder fresh_hardware = Some (True, s3, hw3)
         \<and> m_initialized s3)"
proof -
  have h: "\<not> m_initialized idle_encoder" by (simp add: idle_encoder_def)
  have "fst (output_script refusing_device (outputs_dequeued encoding_hardware + 1)) < 0"
    by (simp add: refusing_device_def)
  from uninit_returns [OF this] obtain s hw where
    u: "uninit refusing_device encoding_encoder encoding_hardware = Some (s, hw)"
    by fastforce
  from C8_encode_idle_noop [of s refusing_device planar_frame hw encoding_encoder encoding_hardware] u
  have a: "iVideoStream refusing_device planar_frame s hw = Some (s, hw)" by blast
  from accepted_start_example obtain s3 hw3 where
    i: "init accepting_device idle_encoder fresh_hardware = Some (True, s3, hw3)" by blast
  from C8_encode_idle_noop [of idle_encoder accepting_device planar_frame fresh_hardware
         idle_encoder fresh_hardware idle_encoder fresh_hardware True s3 hw3] i
  have b: "m_initialized s3" by blast
  from u a i b h C8_encode_idle_noop [of idle_encoder refusing_device planar_frame fresh_hardware]
  show ?thesis by blast
qed

lemma encodeFrame_sets_encodedTime:
  "encodeFrame env src s hw = Some (s1, hw1) \<Longrightarrow> m_encodedTimePts s1 = pts src + duration src"
  by (auto simp: encodeFrame_def Let_def split: option.splits prod.splits if_splits)

text \<open>
  Claim C9: whenever \<^verbatim>\<open>encodeFrame\<close> returns, the encoded-time counter is the frame's
  \<open>pts + duration\<close>. In particular, when the bounded wait for an input buffer gave none
  (and the hardware at some point has no output buffer ready, so that the drain loop
  ends), \<^verbatim>\<open>encodeFrame\<close> returns with the counter set although no frame was submitted
  to the hardware and no input buffer was written.
\<close>

theorem C9_encodedTime_counts_dropped_frames:
  assumes "m_codec s = Some c"
    and "input_script env (inputs_dequeued hw) < 0"
    and "fst (output_script env (outputs_dequeued hw + k)) < 0"
  shows "(\<forall>s0 hw0 s2 hw2. encodeFrame env src s0 hw0 = Some (s2, hw2)
              \<longrightarrow> m_encodedTimePts s2 = pts src + duration src)
         \<and> (\<exists>s1 hw1. encodeFrame env src s hw = Some (s1, hw1)
               \<and> m_encodedTimePts s1 = pts src + duration src
               \<and> submitted hw1 = submitted hw
               \<and> input_buffers hw1 = input_buffers hw)"
proof -
  let ?s1 = "s\<lparr>m_id := packet_id src, m_index := packet_index src\<rparr>"
  let ?hw1 = "(log_call (Call_dequeueInputBuffer c) hw)\<lparr>inputs_dequeued := inputs_dequeued hw + 1\<rparr>"
  have "fst (output_script env (outputs_dequeued ?hw1 + k)) < 0"
    using assms(3) by (simp add: log_call_def)
  from encodeFrame_drain_returns [OF this] obtain s2 hw2 where
    dr: "encodeFrame_drain env c ?s1 ?hw1 = Some (s2, hw2)" by fastforce
  from encodeFrame_drain_frame [OF dr] have fr: "drain_frame ?s1 ?hw1 s2 hw2" by simp
  have sub: "submitted hw2 = submitted hw"
    using drain_frame_fields(9) [OF fr] by (simp add: submitted_def log_call_def)
  have bufs: "input_buffers hw2 = input_buffers hw"
    using drain_frame_fields(8) [OF fr] by (simp add: log_call_def)
  have "encodeFrame env src s hw =
          Some (s2\<lparr>m_encodedTimePts := pts src + duration src,
                   emitted := emitted s2 @ [encodedTimePtsChanged (pts src + duration src)]\<rparr>, hw2)"
    using assms(1,2) dr
    by (simp add: encodeFrame_def Let_def AMediaCodec_dequeueInputBuffer_def)
  with sub bufs show ?thesis by (simp add: encodeFrame_sets_encodedTime)
qed

theorem C9_encodedTime_counts_dropped_frames_witness:
  "m_codec encoding_encoder = Some 0
   \<and> input_script refusing_device (inputs_dequeued encoding_hardware) < 0
   \<and> fst (output_script refusing_device (outputs_dequeued encoding_hardware + 1)) < 0
   \<and> (\<exists>s1 hw1. encodeFrame refusing_device (planar_frame\<lparr>pts := 7, duration := 2\<rparr>)
                   encoding_encoder encoding_hardware = Some (s1, hw1)
         \<and> m_encodedTimePts s1 = 9
         \<and> submitted hw1 = []
         \<and> input_buffers hw1 = input_buffers fresh_hardware)"
proof -
  have h1: "m_codec encoding_encoder = Some 0" by (simp add: encoding_encoder_def)
  have h2: "input_script refusing_device (inputs_dequeued encoding_hardware) < 0"
    by (simp add: refusing_device_def)
  have h3: "fst (output_script refusing_device (outputs_dequeued encoding_hardware + 1)) < 0"
    by (simp add: refusing_device_def)
  have e: "submitted encoding_hardware = []"
    "input_buffers encoding_hardware = input_buffers fresh_hardware"
    by (simp_all add: submitted_def encoding_hardware_def fresh_hardware_def)
  from C9_encodedTime_counts_dropped_frames [OF h1 h2 h3, of "planar_frame\<lparr>pts := 7, duration := 2\<rparr>"]
  have "\<exists>s1 hw1. encodeFrame refusing_device (planar_frame\<lparr>pts := 7, duration := 2\<rparr>)
                   encoding_encoder encoding_hardware = Some (s1, hw1)
         \<and> m_encodedTimePts s1 = 9
         \<and> submitted hw1 = []
         \<and> input_buffers hw1 = input_buffers fresh_hardware"
    by (simp add: e)
  with h1 h2 h3 show ?thesis by blast
qed

text \<open>
  The packet made of an output buffer: its decoding time is its presentation time, its
  duration is 1 and its time base is the inverse of the output frame rate. The
  presentation time itself is computed in double precision
  (\<^verbatim>\<open>qRound64(info.presentationTimeUs * fps.value() / 1e6)\<close>), which is outside this
  embedding: it is the environment's \<open>qRound64_pts\<close>.
\<close>

lemma sendFrame_packet:
  "\<exists>packet. emitted (sendFrame env s buf info) = emitted s @ [oStream packet]
     \<and> cp_pts packet = qRound64_pts env (presentationTimeUs info) (fps (rawCaps (m_outputCaps s)))
     \<and> cp_dts packet = cp_pts packet
     \<and> cp_duration packet = 1
     \<and> cp_timeBase packet = AkFrac_invert (fps (rawCaps (m_outputCaps s)))"
  by (simp add: sendFrame_def Let_def)

subsection \<open>Encoder session: failed start\<close>

lemma running_log_call [simp]: "running_codecs (log_call c hw) = running_codecs hw"
  by (simp add: running_codecs_def log_call_def)

lemma running_next_format [simp]:
  "running_codecs (hw\<lparr>next_format := n\<rparr>) = running_codecs hw"
  by (simp add: running_codecs_def)

lemma running_create:
  "AMediaCodec_createEncoderByType env mime hw = (c, hw1) \<Longrightarrow>
   running_codecs hw1 = running_codecs hw"
  by (auto simp: AMediaCodec_createEncoderByType_def Let_def running_codecs_def log_call_def
           split: if_splits)

lemma running_set_status_subset:
  "st \<noteq> Codec_Started \<Longrightarrow>
   set (running_codecs (set_codec_status c st hw)) \<subseteq> set (running_codecs hw)"
  by (auto simp: running_codecs_def set_codec_status_def split: if_splits)

lemma running_configure:
  "AMediaCodec_configure env c hw = (r, hw1) \<Longrightarrow>
   set (running_codecs hw1) \<subseteq> set (running_codecs hw)"
  using running_set_status_subset [of Codec_Configured c "log_call (Call_configure c) hw"]
  by (auto simp: AMediaCodec_configure_def Let_def split: if_splits)

lemma running_start_refused:
  "AMediaCodec_start env c hw = (r, hw1) \<Longrightarrow> r \<noteq> AMEDIA_OK \<Longrightarrow>
   running_codecs hw1 = running_codecs hw"
  by (auto simp: AMediaCodec_start_def Let_def split: if_splits)

lemma init_fails:
  assumes "\<not> m_initialized s" and "start_fails env s"
  shows "\<exists>s1 hw1. init env s hw = Some (False, s1, hw1)
           \<and> elementState s1 = elementState s \<and> \<not> m_initialized s1
           \<and> set (running_codecs hw1) \<subseteq> set (running_codecs hw)"
proof -
  let ?mime = "mimeType (byName (codec s))"
  have u: "uninit env s hw = Some (s, hw)" using assms(1) by (simp add: uninit_def)
  show ?thesis
  proof (cases "inputCaps s")
    case None
    with u assms(1) show ?thesis by (simp add: init_def)
  next
    case (Some inCaps)
    show ?thesis
    proof (cases "?mime = []")
      case True
      with u Some assms(1) show ?thesis by (simp add: init_def)
    next
      case mime: False
      obtain c hw1 where cr: "AMediaCodec_createEncoderByType env ?mime hw = (c, hw1)"
        by (cases "AMediaCodec_createEncoderByType env ?mime hw") auto
      note r1 = running_create [OF cr]
      show ?thesis
      proof (cases c)
        case None
        with u Some mime cr assms(1) r1 show ?thesis by (simp add: init_def)
      next
        case (Some cdc)
        then have ex: "encoder_exists env ?mime"
          using cr by (auto simp: AMediaCodec_createEncoderByType_def Let_def split: if_splits)
        with assms(2) \<open>inputCaps s = Some inCaps\<close> mime
        have den: "den (fps (videoConverter_outputCaps s)) \<noteq> 0"
          and rej: "configure_status env \<noteq> AMEDIA_OK \<or> start_status env \<noteq> AMEDIA_OK"
          by (auto simp: start_fails_def)
        from den obtain g where g: "init_gop (gop s) (fps (videoConverter_outputCaps s)) = Some g"
          by (auto simp: init_gop_def c_div_def)
        let ?hw2 = "hw1\<lparr>next_format := next_format hw1 + 1\<rparr>"
        let ?s2 = "s\<lparr>m_codec := c, m_mediaFormat := Some (next_format hw1, init_mediaFormat env (s\<lparr>m_codec := c\<rparr>) ?mime g)\<rparr>"
        obtain r hw3 where cf: "AMediaCodec_configure env cdc ?hw2 = (r, hw3)"
          by (cases "AMediaCodec_configure env cdc ?hw2") auto
        from running_configure [OF cf] r1
        have r3: "set (running_codecs hw3) \<subseteq> set (running_codecs hw)" by simp
        show ?thesis
        proof (cases "r = AMEDIA_OK")
          case False
          with u \<open>inputCaps s = Some inCaps\<close> mime cr Some g cf assms(1) r3 show ?thesis
            by (simp add: init_def Let_def)
        next
          case True
          then have "configure_status env = AMEDIA_OK"
            using cf by (auto simp: AMediaCodec_configure_def Let_def split: if_splits)
          with rej have sr: "start_status env \<noteq> AMEDIA_OK" by simp
          obtain r2 hw4 where st: "AMediaCodec_start env cdc hw3 = (r2, hw4)"
            by (cases "AMediaCodec_start env cdc hw3") auto
          with sr have r2: "r2 \<noteq> AMEDIA_OK"
            by (auto simp: AMediaCodec_start_def Let_def split: if_splits)
          from running_start_refused [OF st r2] r3
          have r4: "set (running_codecs hw4) \<subseteq> set (running_codecs hw)" by simp
          from True u \<open>inputCaps s = Some inCaps\<close> mime cr Some g cf st r2 assms(1) r4 show ?thesis
            by (simp add: init_def Let_def)
        qed
      qed
    qed
  qed
qed

text \<open>
  Claim C4: when the start of the session (\<^verbatim>\<open>setState\<close> to paused or playing from
  the null state of an idle session) fails for one of the reasons of \<open>start_fails\<close>, the
  call returns \<open>False\<close>, the element stays in the null state with \<open>m_initialized\<close> and
  \<open>m_paused\<close> false, no codec is running that was not running before, and every
  later \<^verbatim>\<open>encode\<close> returns the element and the hardware as they were.
\<close>

theorem C4_failed_start_stays_idle:
  assumes "elementState s = ElementStateNull" and "\<not> m_initialized s"
    and "st = ElementStatePaused \<or> st = ElementStatePlaying"
    and "start_fails env s"
  shows "\<exists>s1 hw1. setState env st s hw = Some (False, s1, hw1)
           \<and> elementState s1 = ElementStateNull \<and> \<not> m_initialized s1 \<and> \<not> m_paused s1
           \<and> set (running_codecs hw1) \<subseteq> set (running_codecs hw)
           \<and> (\<forall>packet. iVideoStream env packet s1 hw1 = Some (s1, hw1))"
proof -
  define s0 where "s0 = (if st = ElementStatePaused then s\<lparr>m_paused := True\<rparr> else s)"
  have s0: "\<not> m_initialized s0" "start_fails env s0" "elementState s0 = ElementStateNull"
    using assms by (auto simp: s0_def start_fails_def)
  from init_fails [OF s0(1,2), of hw] obtain s1 hw1 where
    i: "init env s0 hw = Some (False, s1, hw1)"
    and p: "elementState s1 = elementState s0" "\<not> m_initialized s1"
       "set (running_codecs hw1) \<subseteq> set (running_codecs hw)"
    by blast
  have "setState env st s hw = Some (False, s1\<lparr>m_paused := False\<rparr>, hw1)"
    using assms(1,3) i by (auto simp: setState_def start_or_fail_def s0_def)
  moreover have "\<forall>packet. iVideoStream env packet (s1\<lparr>m_paused := False\<rparr>) hw1
                   = Some (s1\<lparr>m_paused := False\<rparr>, hw1)"
    using p(2) by (simp add: iVideoStream_def)
  ultimately show ?thesis using p s0(3) by simp
qed


theorem C4_failed_start_stays_idle_witness:
  "elementState idle_encoder = ElementStateNull \<and> \<not> m_initialized idle_encoder
   \<and> start_fails refusing_device idle_encoder
   \<and> (\<exists>s1 hw1. setState refusing_device ElementStatePlaying idle_encoder fresh_hardware
                   = Some (False, s1, hw1)
         \<and> elementState s1 = ElementStateNull \<and> \<not> m_initialized s1 \<and> \<not> m_paused s1
         \<and> running_codecs hw1 = []
         \<and> iVideoStream refusing_device planar_frame s1 hw1 = Some (s1, hw1))"
proof -
  have h1: "elementState idle_encoder = ElementStateNull"
    and h2: "\<not> m_initialized idle_encoder"
    by (simp_all add: idle_encoder_def)
  have h3: "ElementStatePlaying = ElementStatePaused \<or> ElementStatePlaying = ElementStatePlaying"
    by simp
  have h4: "start_fails refusing_device idle_encoder"
    by (simp add: start_fails_def refusing_device_def idle_encoder_def planar_frame_def)
  have r: "running_codecs fresh_hardware = []"
    by (simp add: running_codecs_def fresh_hardware_def)
  from C4_failed_start_stays_idle [OF h1 h2 h3 h4, of fresh_hardware]
  have "\<exists>s1 hw1. setState refusing_device ElementStatePlaying idle_encoder fresh_hardware
                   = Some (False, s1, hw1)
         \<and> elementState s1 = ElementStateNull \<and> \<not> m_initialized s1 \<and> \<not> m_paused s1
         \<and> running_codecs hw1 = []
         \<and> iVideoStream refusing_device planar_frame s1 hw1 = Some (s1, hw1)"
    unfolding r by fastforce
  with h1 h2 h4 show ?thesis by blast
qed

text \<open>
  What such a failure does leave behind: on the device that refuses the start, the codec
  object created by \<^verbatim>\<open>init\<close> stays alive and configured, and the element keeps its
  handle (nothing deletes it; the session is not running and not initialised).
\<close>

lemma refused_start_keeps_codec_object:
  "\<exists>s1 hw1. setState refusing_device ElementStatePlaying idle_encoder fresh_hardware
               = Some (False, s1, hw1)
     \<and> m_codec s1 = Some 0
     \<and> codec_objects hw1 = [(0, Codec_Configured)]
     \<and> ndk_calls hw1 = [Call_createEncoderByType ''video/avc'', Call_configure 0, Call_start 0]"
  by (simp add: setState_def start_or_fail_def init_def uninit_def idle_encoder_def
        refusing_device_def fresh_hardware_def byName_h264 planar_frame_def
        AMediaCodec_createEncoderByType_def AMediaCodec_configure_def AMediaCodec_start_def
        log_call_def set_codec_status_def init_gop_def c_div_def Let_def)

subsection \<open>Recording orchestrator\<close>

text \<open>
  Claim C3, as stated, fails in one point: the duration registered with the muxer is
  not the encoded time divided by the stream's rate. A recording at 30 frames per second
  whose video encoder reports an encoded time of 60 registers the duration 60, where the
  division gives 2 (the quotient is only printed).
\<close>

theorem C3_registered_duration_counterexample:
  "Recording_uninit running_recording [] =
     Some (running_recording\<lparr>m_isRecording := False, m_lastVideo := ''/Movies/Webcamoid/Video 1.webm''\<rparr>,
           [Ev_videoEncoder_setState ElementStateNull,
            Ev_audioEncoder_setState ElementStateNull,
            Ev_muxer_setStreamDuration CapsType_Audio 96000,
            Ev_muxer_setStreamDuration CapsType_Video 60,
            Ev_muxer_setState ElementStateNull,
            Ev_readThumbnail ''/Movies/Webcamoid/Video 1.webm'',
            Sig_lastVideoChanged ''/Movies/Webcamoid/Video 1.webm''])
   \<and> duration_spec (ve_encodedTimePts vp8_encoder) (ve_fps vp8_encoder) = 2"
  by (simp add: Recording_uninit_def running_recording_def new_recording_def webm_muxer_def
        vp8_encoder_def opus_encoder_def duration_spec_def Let_def)

text \<open>
  Claim C3, amended: during the stop sequence of a recording the video encoder is
  stopped first, then the audio encoder; each stream's final duration, which is that
  encoder's last encoded time itself (in the stream's own time units, not divided by the
  stream's rate), is registered with the muxer only if it is positive, the audio
  duration before the video duration; the muxer is stopped last. An encoder that is
  absent is skipped.
\<close>

theorem C3_stop_sequence:
  assumes "m_isRecording r" and "m_muxer r = Some mux"
  shows "\<exists>r1 ev1. Recording_uninit r ev = Some (r1, ev @ ev1)
           \<and> filter is_pipeline_call ev1 =
               (case m_videoEncoder r of
                  Some venc \<Rightarrow> [Ev_videoEncoder_setState ElementStateNull] | None \<Rightarrow> [])
               @ (case m_audioEncoder r of
                    Some aenc \<Rightarrow> [Ev_audioEncoder_setState ElementStateNull] | None \<Rightarrow> [])
               @ (case m_audioEncoder r of
                    Some aenc \<Rightarrow>
                      if 0 < ae_encodedTimePts aenc
                      then [Ev_muxer_setStreamDuration CapsType_Audio (ae_encodedTimePts aenc)]
                      else []
                  | None \<Rightarrow> [])
               @ (case m_videoEncoder r of
                    Some venc \<Rightarrow>
                      if 0 < ve_encodedTimePts venc
                      then [Ev_muxer_setStreamDuration CapsType_Video (ve_encodedTimePts venc)]
                      else []
                  | None \<Rightarrow> [])
               @ [Ev_muxer_setState ElementStateNull]"
  using assms
  by (auto simp: Recording_uninit_def Let_def split: option.splits)

theorem C3_stop_sequence_witness:
  "m_isRecording running_recording \<and> m_muxer running_recording = Some webm_muxer
   \<and> m_videoEncoder running_recording = Some vp8_encoder
   \<and> m_audioEncoder running_recording = Some opus_encoder
   \<and> (\<exists>r1 ev1. Recording_uninit running_recording [] = Some (r1, ev1)
         \<and> filter is_pipeline_call ev1 =
             [Ev_videoEncoder_setState ElementStateNull, Ev_audioEncoder_setState ElementStateNull,
              Ev_muxer_setStreamDuration CapsType_Audio 96000,
              Ev_muxer_setStreamDuration CapsType_Video 60,
              Ev_muxer_setState ElementStateNull])"
proof -
  have h: "m_isRecording running_recording" "m_muxer running_recording = Some webm_muxer"
    "m_videoEncoder running_recording = Some vp8_encoder"
    "m_audioEncoder running_recording = Some opus_encoder"
    by (simp_all add: running_recording_def new_recording_def)
  from C3_stop_sequence [OF h(1,2), of "[]"]
  have "\<exists>r1 ev1. Recording_uninit running_recording [] = Some (r1, ev1)
         \<and> filter is_pipeline_call ev1 =
             [Ev_videoEncoder_setState ElementStateNull, Ev_audioEncoder_setState ElementStateNull,
              Ev_muxer_setStreamDuration CapsType_Audio 96000,
              Ev_muxer_setStreamDuration CapsType_Video 60,
              Ev_muxer_setState ElementStateNull]"
    by (simp add: h vp8_encoder_def opus_encoder_def)
  with h show ?thesis by blast
qed







text \<open>
  Claim C10, as stated, fails for the audio half when the value set is the stored one:
  the code returns at once, nothing is persisted and no signal is emitted.
\<close>

theorem C10_audio_same_value_counterexample:
  "m_audioEncoder new_recording = None
   \<and> setBitrate CapsAudio 128000 new_recording [] = (new_recording, [])"
  by (simp add: setBitrate_def new_recording_def)

text \<open>
  Claim C10, amended: setting the video bitrate is a no-op (the stored bitrate stays
  unchanged, nothing is persisted, no signal is emitted) whenever no video encoder is
  selected, whereas setting the audio bitrate to a value different from the stored one
  updates the stored value, emits the changed signal and persists the value whether or
  not an audio encoder is selected; setting the audio bitrate to the stored value is a
  no-op.
\<close>

theorem C10_setBitrate:
  "(m_videoEncoder r = None \<longrightarrow> setBitrate CapsVideo b r ev = (r, ev))
   \<and> (b \<noteq> m_audioBitrate r \<longrightarrow>
        setBitrate CapsAudio b r ev =
          (r\<lparr>m_audioBitrate := b\<rparr>,
           ev @ [Sig_bitrateChanged CapsAudio b,
                 Ev_settings_setValue ''RecordConfigs'' ''audioBitrate'' b]))
   \<and> (b = m_audioBitrate r \<longrightarrow> setBitrate CapsAudio b r ev = (r, ev))"
  by (auto simp: setBitrate_def)

theorem C10_setBitrate_witness:
  "m_videoEncoder new_recording = None \<and> m_audioEncoder new_recording = None
   \<and> 64000 \<noteq> m_audioBitrate new_recording
   \<and> setBitrate CapsVideo 64000 new_recording [] = (new_recording, [])
   \<and> setBitrate CapsAudio 64000 new_recording [] =
       (new_recording\<lparr>m_audioBitrate := 64000\<rparr>,
        [Sig_bitrateChanged CapsAudio 64000,
         Ev_settings_setValue ''RecordConfigs'' ''audioBitrate'' 64000])
   \<and> setBitrate CapsAudio (m_audioBitrate new_recording) new_recording [] = (new_recording, [])"
proof -
  have h: "m_videoEncoder new_recording = None" "m_audioEncoder new_recording = None"
    "64000 \<noteq> m_audioBitrate new_recording"
    by (simp_all add: new_recording_def)
  from C10_setBitrate [of new_recording 64000 "[]"]
       C10_setBitrate [of new_recording "m_audioBitrate new_recording" "[]"] h
  show ?thesis by simp
qed

subsection \<open>Key-frame interval\<close>

lemma sdiv_clamp_floor:
  fixes a b :: int
  assumes "b \<noteq> 0"
  shows "max (a sdiv b) 1 = max (a div b) 1"
proof (cases "sgn a = sgn b \<or> b dvd a")
  case True
  then show ?thesis
    by (auto simp: signed_divide_int_eq_divide_int)
next
  case False
  then have neq: "sgn a \<noteq> sgn b" and nd: "\<not> b dvd a" by auto
  from nd have "a \<noteq> 0" by auto
  have "a div b < 0"
  proof (cases "0 < b")
    case True
    with neq \<open>a \<noteq> 0\<close> have "a < 0" by (auto simp: sgn_if split: if_splits)
    with True show ?thesis by (simp add: pos_imp_zdiv_neg_iff)
  next
    case False
    with assms have "b < 0" by simp
    with neq \<open>a \<noteq> 0\<close> have "0 < a" by (auto simp: sgn_if split: if_splits)
    with \<open>b < 0\<close> show ?thesis by (simp add: neg_imp_zdiv_neg_iff)
  qed
  moreover have "a sdiv b = a div b + 1"
    using neq nd assms by (simp add: signed_divide_int_eq_divide_int)
  ultimately show ?thesis by simp
qed

lemma floor_gop_quotient:
  "\<lfloor>real_of_int g * (real_of_int n / real_of_int d) / 1000\<rfloor> = (g * n) div (1000 * d)"
proof -
  have "real_of_int g * (real_of_int n / real_of_int d) / 1000
      = real_of_int (g * n) / real_of_int (1000 * d)"
    by simp
  then show ?thesis
    by (simp only: floor_divide_of_int_eq)
qed

text \<open>The integer quotient of \<^verbatim>\<open>init\<close>, clamped, is the clamped floor of the exact quotient.\<close>

lemma init_gop_floor:
  "init_gop gopMillis rate = Some g \<longleftrightarrow>
     den rate \<noteq> 0
     \<and> g = max \<lfloor>real_of_int gopMillis * (real_of_int (num rate) / real_of_int (den rate)) / 1000\<rfloor> 1"
proof (cases "den rate = 0")
  case True
  then show ?thesis by (simp add: init_gop_def c_div_def)
next
  case False
  then have nz: "1000 * den rate \<noteq> 0" by simp
  show ?thesis
    unfolding floor_gop_quotient
    using nz False by (auto simp: init_gop_def c_div_def sdiv_clamp_floor)
qed

lemma init_mediaFormat_gop:
  "init_mediaFormat env s mime g ''i-frame-interval'' = Some (FormatInt32 (int32_of g))"
  by (simp add: init_mediaFormat_def Let_def)

lemma init_gop_positive: "init_gop gopMillis r = Some g \<Longrightarrow> 1 \<le> g"
  by (auto simp: init_gop_def)

lemma drain_frame_settings:
  assumes "drain_frame s hw s1 hw1"
  shows "gop s1 = gop s" "videoConverter_outputCaps s1 = videoConverter_outputCaps s"
  using assms unfolding drain_frame_def
  by (cases s, cases s1, auto)+

lemma uninit_keeps_settings:
  assumes "uninit env s hw = Some (s1, hw1)"
  shows "gop s1 = gop s" "videoConverter_outputCaps s1 = videoConverter_outputCaps s"
proof -
  have "gop s1 = gop s \<and> videoConverter_outputCaps s1 = videoConverter_outputCaps s"
  proof (cases "m_initialized s")
    case False
    with assms show ?thesis by (simp add: uninit_def)
  next
    case True
    show ?thesis
    proof (cases "m_codec s")
      case None
      with True assms show ?thesis by (auto simp: uninit_def Let_def)
    next
      case (Some c)
      obtain i hwa where deq: "AMediaCodec_dequeueInputBuffer env c hw = (i, hwa)"
        by (cases "AMediaCodec_dequeueInputBuffer env c hw") auto
      define hwb where "hwb = (if 0 \<le> i
                                  then AMediaCodec_queueInputBuffer c (nat i) 0 0
                                         AMEDIACODEC_BUFFER_FLAG_END_OF_STREAM hwa
                                  else hwa)"
      from True Some assms deq obtain s2 hw3 where
        dr: "uninit_drain env c False (s\<lparr>m_initialized := False\<rparr>) hwb = Some (s2, hw3)"
        and s1: "s1 = s2\<lparr>m_mediaFormat := None, m_codec := None, m_paused := False\<rparr>"
        by (auto simp: uninit_def Let_def hwb_def split: option.splits if_splits)
      from drain_frame_settings [OF uninit_drain_frame [OF dr]] s1 show ?thesis by simp
    qed
  qed
  then show "gop s1 = gop s" "videoConverter_outputCaps s1 = videoConverter_outputCaps s"
    by simp_all
qed

lemma init_failure_idle:
  assumes "init env s0 hw0 = Some (False, s1, hw1)"
  shows "\<not> m_initialized s1"
proof -
  obtain sa hwa where u: "uninit env s0 hw0 = Some (sa, hwa)"
    using assms by (auto simp: init_def split: option.splits)
  note idle = uninit_result_idle [OF u]
  from assms u idle show ?thesis
    by (auto simp: init_def Let_def split: option.splits prod.splits if_splits)
qed

text \<open>
  A start that succeeds has computed the key-frame interval from the element's GOP and
  the converter's frame rate and has put it, narrowed to 32 bits, into the format object
  it configured the codec with.
\<close>

lemma init_configures_interval:
  assumes "init env s0 hw0 = Some (True, s1, hw1)"
  shows "\<exists>g. init_gop (gop s0) (fps (videoConverter_outputCaps s0)) = Some g
           \<and> configured_interval s1 = Some (FormatInt32 (int32_of g))"
proof -
  obtain sa hwa where u: "uninit env s0 hw0 = Some (sa, hwa)"
    using assms by (auto simp: init_def split: option.splits)
  note k = uninit_keeps_settings [OF u]
  from assms u show ?thesis
    by (auto simp: init_def Let_def configured_interval_def updateHeaders_def
          init_mediaFormat_gop k split: option.splits prod.splits if_splits)
qed

lemma setState_start_runs_init:
  assumes "elementState s = ElementStateNull"
    and "st = ElementStatePaused \<or> st = ElementStatePlaying"
    and "setState env st s hw = Some (ok, s', hw')"
    and "ok \<or> m_initialized s'"
  shows "\<exists>s0 s1 hw1. init env s0 hw = Some (True, s1, hw1)
           \<and> gop s0 = gop s
           \<and> videoConverter_outputCaps s0 = videoConverter_outputCaps s
           \<and> configured_interval s' = configured_interval s1"
proof -
  define s0 where "s0 = (if st = ElementStatePaused then s\<lparr>m_paused := True\<rparr> else s)"
  have st: "start_or_fail env st s0 hw = Some (ok, s', hw')"
    using assms(1,2,3) by (auto simp: setState_def s0_def)
  then obtain ok1 s1 hw1 where i: "init env s0 hw = Some (ok1, s1, hw1)"
    by (auto simp: start_or_fail_def split: option.splits)
  have ok1
  proof (rule ccontr)
    assume n: "\<not> ok1"
    with i have "\<not> m_initialized s1" by (simp add: init_failure_idle)
    with st i n assms(4) show False by (auto simp: start_or_fail_def)
  qed
  with st i have "configured_interval s' = configured_interval s1"
    by (auto simp: start_or_fail_def base_setState_def configured_interval_def
             split: prod.splits)
  moreover have "gop s0 = gop s" "videoConverter_outputCaps s0 = videoConverter_outputCaps s"
    by (simp_all add: s0_def)
  ultimately show ?thesis using i \<open>ok1\<close> by auto
qed

text \<open>A start on the accepting device, at each of the three settings.\<close>

lemma started_interval_ntsc:
  "started_interval accepting_device ElementStatePlaying ntsc_encoder fresh_hardware
     = Some (FormatInt32 29)"
  by (simp add: started_interval_def setState_def start_or_fail_def base_setState_def init_def
        uninit_def ntsc_encoder_def idle_encoder_def accepting_device_def refusing_device_def
        fresh_hardware_def byName_h264 planar_frame_def AMediaCodec_createEncoderByType_def
        AMediaCodec_configure_def AMediaCodec_start_def log_call_def set_codec_status_def
        init_gop_def c_div_def Let_def updateHeaders_def configured_interval_def
        init_mediaFormat_gop int32_of_id)

lemma accepted_start_gop2000:
  "\<exists>s1 hw1. setState accepting_device ElementStatePlaying gop2000_encoder fresh_hardware
               = Some (True, s1, hw1)"
  by (simp add: setState_def start_or_fail_def base_setState_def init_def
        uninit_def gop2000_encoder_def idle_encoder_def accepting_device_def refusing_device_def
        fresh_hardware_def byName_h264 planar_frame_def AMediaCodec_createEncoderByType_def
        AMediaCodec_configure_def AMediaCodec_start_def log_call_def set_codec_status_def
        init_gop_def c_div_def Let_def updateHeaders_def)

lemma accepted_start_ntsc:
  "\<exists>s1 hw1. setState accepting_device ElementStatePlaying ntsc_encoder fresh_hardware
               = Some (True, s1, hw1)"
  by (simp add: setState_def start_or_fail_def base_setState_def init_def
        uninit_def ntsc_encoder_def idle_encoder_def accepting_device_def refusing_device_def
        fresh_hardware_def byName_h264 planar_frame_def AMediaCodec_createEncoderByType_def
        AMediaCodec_configure_def AMediaCodec_start_def log_call_def set_codec_status_def
        init_gop_def c_div_def Let_def updateHeaders_def)

lemma accepted_start_gop0:
  "\<exists>s1 hw1. setState accepting_device ElementStatePaused gop0_encoder fresh_hardware
               = Some (True, s1, hw1)"
  by (simp add: setState_def start_or_fail_def base_setState_def init_def
        uninit_def gop0_encoder_def idle_encoder_def accepting_device_def refusing_device_def
        fresh_hardware_def byName_h264 planar_frame_def AMediaCodec_createEncoderByType_def
        AMediaCodec_configure_def AMediaCodec_start_def log_call_def set_codec_status_def
        init_gop_def c_div_def Let_def updateHeaders_def)

text \<open>
  Claim C2, as stated, fails: the code divides integers, so the fraction is discarded,
  not rounded. A session started with a GOP of 1000 ms at the NTSC rate 30000/1001 has
  the key-frame interval 29 in its format, where \<open>round\<close> gives 30.
\<close>

theorem C2_gop_round_counterexample:
  "started_interval accepting_device ElementStatePlaying ntsc_encoder fresh_hardware
     = Some (FormatInt32 29)
   \<and> gop ntsc_encoder = 1000
   \<and> fps (videoConverter_outputCaps ntsc_encoder) = \<lparr>num = 30000, den = 1001\<rparr>
   \<and> gop_spec 1000 \<lparr>num = 30000, den = 1001\<rparr> = 30"
  by (simp add: started_interval_ntsc)
     (simp add: ntsc_encoder_def idle_encoder_def planar_frame_def gop_spec_def round_def)

text \<open>
  Claim C2, amended: when the encoder session is started (\<^verbatim>\<open>setState\<close> to paused or
  playing from the null state returns \<open>True\<close>, or leaves the session initialised), the
  key-frame interval configured on the hardware format is the floor of
  \<open>gopMillis * fps / 1000\<close> (the integer quotient \<open>gopMillis * num / (1000 * den)\<close> with
  its fraction discarded), clamped to at least 1, whenever that value fits the 32 bits of
  the format's entry; \<open>gopMillis = 2000\<close> with \<open>fps = 30/1\<close> gives 60 and \<open>gopMillis = 0\<close>
  gives 1. (A session cannot be started at all with a frame rate of denominator 0.)
\<close>

theorem C2_gop_floor:
  assumes "elementState s = ElementStateNull"
    and "st = ElementStatePaused \<or> st = ElementStatePlaying"
    and "setState env st s hw = Some (ok, s', hw')"
    and "ok \<or> m_initialized s'"
    and "rate = fps (videoConverter_outputCaps s)"
  shows "den rate \<noteq> 0
         \<and> (max \<lfloor>real_of_int (gop s) * (real_of_int (num rate) / real_of_int (den rate)) / 1000\<rfloor> 1
              < 2 ^ 31 \<longrightarrow>
            configured_interval s' =
              Some (FormatInt32
                (max \<lfloor>real_of_int (gop s) * (real_of_int (num rate) / real_of_int (den rate)) / 1000\<rfloor> 1)))
         \<and> (gop s = 2000 \<and> rate = \<lparr>num = 30, den = 1\<rparr> \<longrightarrow>
              configured_interval s' = Some (FormatInt32 60))
         \<and> (gop s = 0 \<longrightarrow> configured_interval s' = Some (FormatInt32 1))"
proof -
  let ?q = "max \<lfloor>real_of_int (gop s) * (real_of_int (num rate) / real_of_int (den rate)) / 1000\<rfloor> 1"
  from setState_start_runs_init [OF assms(1-4)] obtain s0 s1 hw1 where
    i: "init env s0 hw = Some (True, s1, hw1)"
    and k: "gop s0 = gop s" "videoConverter_outputCaps s0 = videoConverter_outputCaps s"
    and c: "configured_interval s' = configured_interval s1"
    by blast
  from init_configures_interval [OF i] k assms(5) obtain g where
    g: "init_gop (gop s) rate = Some g"
    and f: "configured_interval s' = Some (FormatInt32 (int32_of g))"
    using c by auto
  from g have d: "den rate \<noteq> 0" and q: "g = ?q"
    by (simp_all add: init_gop_floor)
  have pos: "- (2 ^ 31) \<le> g" using init_gop_positive [OF g] by simp
  have fit: "configured_interval s' = Some (FormatInt32 ?q)" if "?q < 2 ^ 31"
    using f q that pos by (simp add: int32_of_id)
  have a: "configured_interval s' = Some (FormatInt32 60)"
    if "gop s = 2000" and "rate = \<lparr>num = 30, den = 1\<rparr>"
  proof -
    have e: "?q = 60" unfolding floor_gop_quotient using that by simp
    have "?q < 2 ^ 31" unfolding e by simp
    from fit [OF this] show ?thesis unfolding e .
  qed
  have b: "configured_interval s' = Some (FormatInt32 1)" if "gop s = 0"
  proof -
    have e: "?q = 1" unfolding floor_gop_quotient using that by simp
    have "?q < 2 ^ 31" unfolding e by simp
    from fit [OF this] show ?thesis unfolding e .
  qed
  from d fit a b show ?thesis by blast
qed

theorem C2_gop_floor_witness:
  "elementState gop2000_encoder = ElementStateNull
   \<and> gop gop2000_encoder = 2000
   \<and> fps (videoConverter_outputCaps gop2000_encoder) = \<lparr>num = 30, den = 1\<rparr>
   \<and> (\<exists>s1 hw1. setState accepting_device ElementStatePlaying gop2000_encoder fresh_hardware
                   = Some (True, s1, hw1)
         \<and> configured_interval s1 = Some (FormatInt32 60))
   \<and> elementState gop0_encoder = ElementStateNull
   \<and> gop gop0_encoder = 0
   \<and> (\<exists>s1 hw1. setState accepting_device ElementStatePaused gop0_encoder fresh_hardware
                   = Some (True, s1, hw1)
         \<and> configured_interval s1 = Some (FormatInt32 1))
   \<and> elementState ntsc_encoder = ElementStateNull
   \<and> gop ntsc_encoder = 1000
   \<and> fps (videoConverter_outputCaps ntsc_encoder) = \<lparr>num = 30000, den = 1001\<rparr>
   \<and> (\<exists>s1 hw1. setState accepting_device ElementStatePlaying ntsc_encoder fresh_hardware
                   = Some (True, s1, hw1)
         \<and> configured_interval s1 = Some (FormatInt32 29))"
proof -
  have h: "elementState gop2000_encoder = ElementStateNull" "gop gop2000_encoder = 2000"
    "fps (videoConverter_outputCaps gop2000_encoder) = \<lparr>num = 30, den = 1\<rparr>"
    "elementState gop0_encoder = ElementStateNull" "gop gop0_encoder = 0"
    by (simp_all add: gop2000_encoder_def gop0_encoder_def idle_encoder_def planar_frame_def)
  have n: "elementState ntsc_encoder = ElementStateNull" "gop ntsc_encoder = 1000"
    "fps (videoConverter_outputCaps ntsc_encoder) = \<lparr>num = 30000, den = 1001\<rparr>"
    by (simp_all add: ntsc_encoder_def idle_encoder_def planar_frame_def)
  have q: "max \<lfloor>real_of_int (gop ntsc_encoder)
                  * (real_of_int (num \<lparr>num = 30000, den = 1001\<rparr>)
                     / real_of_int (den \<lparr>num = 30000, den = 1001\<rparr>)) / 1000\<rfloor> 1 = (29::int)"
    unfolding floor_gop_quotient n(2) by simp
  from accepted_start_ntsc obtain s3 hw3 where
    c: "setState accepting_device ElementStatePlaying ntsc_encoder fresh_hardware
          = Some (True, s3, hw3)"
    by blast
  from C2_gop_floor [OF n(1) _ c _ n(3) [symmetric]]
  have c': "configured_interval s3 = Some (FormatInt32 29)"
    unfolding q by simp
  from accepted_start_gop2000 obtain s1 hw1 where
    a: "setState accepting_device ElementStatePlaying gop2000_encoder fresh_hardware
          = Some (True, s1, hw1)"
    by blast
  from C2_gop_floor [OF h(1) _ a _ h(3) [symmetric]] h(2)
  have a': "configured_interval s1 = Some (FormatInt32 60)" by simp
  from accepted_start_gop0 obtain s2 hw2 where
    b: "setState accepting_device ElementStatePaused gop0_encoder fresh_hardware
          = Some (True, s2, hw2)"
    by blast
  from C2_gop_floor [OF h(4) _ b _ refl] h(5)
  have b': "configured_interval s2 = Some (FormatInt32 1)" by simp
  from h n a a' b b' c c' show ?thesis by blast
qed

end
